theory Spec2Isabelle
  imports Complex_Main
begin

section \<open>Numbers, landmarks and the face-oval index list\<close>

text \<open>
  JavaScript numbers are modelled as exact reals: rounding of IEEE doubles, NaN and the
  infinities are outside the model (the two places where the source relies on an
  infinity, the initial accumulators of the bounding loop and a division by a zero block
  size, are written out where they occur). The functions \<open>clamp\<close> and
  \<open>buildMosaicPatch\<close> and the table \<open>FACE_OVAL\<close> are the same code in
  \<^verbatim>\<open>src/main.ts\<close> (the batch page) and in the second source file (the single-image
  page), and \<open>initLandmarker\<close> differs in the face limit it asks for only;
  \<open>mosaicFaceOval\<close> differs and is modelled once per file.
\<close>

definition clamp :: "real \<Rightarrow> real \<Rightarrow> real \<Rightarrow> real" where
  "clamp v mn mx = max mn (min mx v)"

record landmark =
  lx :: real
  ly :: real

type_synonym point = "real \<times> real"

text \<open>
  A landmark array as the detector returns it. An element is \<open>None\<close> where the array
  holds \<^verbatim>\<open>undefined\<close>; an index at or beyond the length reads as \<^verbatim>\<open>undefined\<close> as well.
\<close>

type_synonym landmarks = "landmark option list"

definition FACE_OVAL :: "nat list" where
  "FACE_OVAL =
    [10, 338, 297, 332, 284, 251, 389, 356, 454, 323,
     361, 288, 397, 365, 379, 378, 400, 377, 152, 148,
     176, 149, 150, 136, 172, 58, 132, 93, 234, 127,
     162, 21, 54, 103, 67, 109]"

definition landmarkAt :: "landmarks \<Rightarrow> nat \<Rightarrow> landmark option" where
  "landmarkAt ls i = (if i < length ls then ls ! i else None)"

definition toPixel :: "real \<Rightarrow> real \<Rightarrow> landmark \<Rightarrow> point" where
  "toPixel imgW imgH p = (lx p * imgW, ly p * imgH)"

text \<open>
  \<^verbatim>\<open>FACE_OVAL.map((i) => landmarks[i]).filter(Boolean).map((p) => ({x: p.x * imgW, y: p.y * imgH}))\<close>:
  a landmark object is truthy, \<^verbatim>\<open>undefined\<close> is not.
\<close>

definition contourPts :: "landmarks \<Rightarrow> real \<Rightarrow> real \<Rightarrow> point list" where
  "contourPts ls imgW imgH =
     map (\<lambda>v. toPixel imgW imgH (the v))
       (filter (\<lambda>v. v \<noteq> None) (map (landmarkAt ls) FACE_OVAL))"

text \<open>
  The selector as the specification words it: visit the indices in order, look each one
  up, omit it when the landmark is absent, otherwise append its pixel-space point.
\<close>

fun selectLandmarks :: "landmarks \<Rightarrow> real \<Rightarrow> real \<Rightarrow> nat list \<Rightarrow> point list" where
  "selectLandmarks ls imgW imgH [] = []"
| "selectLandmarks ls imgW imgH (i # rest) =
     (case landmarkAt ls i of
        None \<Rightarrow> selectLandmarks ls imgW imgH rest
      | Some p \<Rightarrow> (lx p * imgW, ly p * imgH) # selectLandmarks ls imgW imgH rest)"

section \<open>Contour geometry\<close>

text \<open>
  The bounding loop. Its four accumulators start at \<^verbatim>\<open>Infinity\<close> and \<^verbatim>\<open>-Infinity\<close>;
  \<open>None\<close> stands for that initial state, which the first point replaces
  (\<^verbatim>\<open>Math.min(Infinity, v)\<close> and \<^verbatim>\<open>Math.max(-Infinity, v)\<close> are \<^verbatim>\<open>v\<close>).
\<close>

type_synonym box = "real \<times> real \<times> real \<times> real"

fun boundsStep :: "box option \<Rightarrow> point \<Rightarrow> box option" where
  "boundsStep None (px, py) = Some (px, py, px, py)"
| "boundsStep (Some (minX, minY, maxX, maxY)) (px, py) =
     Some (min minX px, min minY py, max maxX px, max maxY py)"

definition bounds :: "point list \<Rightarrow> box option" where
  "bounds pts = foldl boundsStep None pts"

text \<open>
  The padded, clamped region \<^verbatim>\<open>{x, y, cw, ch}\<close> computed from the box, the padding
  ratio and the image size (the four \<^verbatim>\<open>clamp\<close> lines of \<open>mosaicFaceOval\<close>).
\<close>

definition paddedRegion :: "real \<Rightarrow> box \<Rightarrow> real \<Rightarrow> real \<Rightarrow> box" where
  "paddedRegion pad b imgW imgH =
     (case b of (minX, minY, maxX, maxY) \<Rightarrow>
        let w = maxX - minX;
            h = maxY - minY;
            x = clamp (minX - w * pad) 0 imgW;
            y = clamp (minY - h * pad) 0 imgH;
            cw = clamp (w * (1 + pad * 2)) 1 (imgW - x);
            ch = clamp (h * (1 + pad * 2)) 1 (imgH - y)
        in (x, y, cw, ch))"

text \<open>The centroid expansion of the single-image page (factor \<open>1.12\<close>).\<close>

definition centroid :: "point list \<Rightarrow> point" where
  "centroid rawPts =
     (foldl (\<lambda>s p. s + fst p) 0 rawPts / real (length rawPts),
      foldl (\<lambda>s p. s + snd p) 0 rawPts / real (length rawPts))"

definition expandPts :: "point list \<Rightarrow> point list" where
  "expandPts rawPts =
     (let cx = fst (centroid rawPts);
          cy = snd (centroid rawPts);
          expand = 112 / 100
      in map (\<lambda>p. (cx + (fst p - cx) * expand, cy + (snd p - cy) * expand)) rawPts)"

definition effectiveBlock :: "real \<Rightarrow> real" where
  "effectiveBlock w = max 12 (min 32 (w / 12))"

section \<open>The canvas\<close>

text \<open>
  The 2D canvas of the browser is not code of the repository; what the program relies on
  is modelled here after the HTML canvas interface. A bitmap maps pixel positions to a
  colour, \<open>None\<close> being a transparent pixel; colours are opaque, so drawing a pixel
  replaces what is below it and drawing a transparent pixel leaves it. A pixel is
  sampled at its centre \<open>(i + 1/2, j + 1/2)\<close>. What a user agent is free to choose is
  a parameter, the record \<open>agent\<close>: which pixels the fill of a path touches (nonzero
  winding rule, with whatever rasterisation of the edge), and the filter applied when an
  image is resampled with smoothing enabled.
\<close>

datatype error =
    InvalidStateError
  | TypeError
  | LoadFailed
  | DecodeFailed
  | DetectFailed
  | ToBlobFailed

type_synonym pixel = "int \<times> int"

record 'c canvas =
  cwidth :: int
  cheight :: int
  bitmap :: "pixel \<Rightarrow> 'c option"

record 'c context2d =
  canvas :: "'c canvas"
  clipRegion :: "pixel \<Rightarrow> bool"
  imageSmoothingEnabled :: bool
  path :: "point list list"
  saved :: "((pixel \<Rightarrow> bool) \<times> bool) list"

record 'c agent =
  covers :: "point list list \<Rightarrow> pixel \<Rightarrow> bool"
  smooth :: "'c canvas \<Rightarrow> point \<Rightarrow> point \<Rightarrow> 'c option"

text \<open>
  Assigning \<^verbatim>\<open>canvas.width\<close>: the number is converted to an unsigned 32-bit integer
  and kept when it is at most \<open>2147483647\<close>; otherwise the attribute falls back to its
  default (300 for the width, 150 for the height).
\<close>

definition canvasDim :: "int \<Rightarrow> int \<Rightarrow> int" where
  "canvasDim dflt v = (let u = v mod 2 ^ 32 in if u \<le> 2147483647 then u else dflt)"

definition createCanvas :: "int \<Rightarrow> int \<Rightarrow> 'c canvas" where
  "createCanvas w h =
     \<lparr>cwidth = canvasDim 300 w, cheight = canvasDim 150 h, bitmap = (\<lambda>p. None)\<rparr>"

definition getContext :: "'c canvas \<Rightarrow> 'c context2d" where
  "getContext c =
     \<lparr>canvas = c, clipRegion = (\<lambda>p. True), imageSmoothingEnabled = True,
      path = [], saved = []\<rparr>"

definition pixelAt :: "'c canvas \<Rightarrow> pixel \<Rightarrow> 'c option" where
  "pixelAt c p =
     (if 0 \<le> fst p \<and> fst p < cwidth c \<and> 0 \<le> snd p \<and> snd p < cheight c
      then bitmap c p else None)"

definition isInt :: "real \<Rightarrow> bool" where
  "isInt r = (of_int \<lfloor>r\<rfloor> = r)"

text \<open>
  A draw copies pixels when source and destination rectangle have the same size and
  an integral offset; otherwise the image is resampled.
\<close>

definition aligned ::
  "real \<Rightarrow> real \<Rightarrow> real \<Rightarrow> real \<Rightarrow> real \<Rightarrow> real \<Rightarrow> real \<Rightarrow> real \<Rightarrow> bool" where
  "aligned sx sy sw sh dx dy dw dh =
     (sw = dw \<and> sh = dh \<and> isInt (sx - dx) \<and> isInt (sy - dy))"

text \<open>
  The colour that a draw gives the destination pixel \<open>p\<close>: the filter of the agent when
  the image is resampled with smoothing enabled, the source pixel under the centre of
  \<open>p\<close> (nearest neighbour) otherwise. A position outside the source image yields nothing.
\<close>

definition sourcePixel ::
  "'c agent \<Rightarrow> bool \<Rightarrow> 'c canvas \<Rightarrow> real \<Rightarrow> real \<Rightarrow> real \<Rightarrow> real \<Rightarrow>
   real \<Rightarrow> real \<Rightarrow> real \<Rightarrow> real \<Rightarrow> pixel \<Rightarrow> 'c option" where
  "sourcePixel A smoothing img sx sy sw sh dx dy dw dh p =
     (let u = sx + (of_int (fst p) + 1 / 2 - dx) * sw / dw;
          v = sy + (of_int (snd p) + 1 / 2 - dy) * sh / dh
      in if smoothing \<and> \<not> aligned sx sy sw sh dx dy dw dh
         then smooth A img (u, v) (sw / dw, sh / dh)
         else pixelAt img (\<lfloor>u\<rfloor>, \<lfloor>v\<rfloor>))"

text \<open>
  The pixels a draw may write: inside the bitmap, inside the clipping region, centre
  inside the destination rectangle.
\<close>

definition painted ::
  "'c context2d \<Rightarrow> real \<Rightarrow> real \<Rightarrow> real \<Rightarrow> real \<Rightarrow> pixel \<Rightarrow> bool" where
  "painted ctx dx dy dw dh p =
     (0 \<le> fst p \<and> fst p < cwidth (canvas ctx) \<and>
      0 \<le> snd p \<and> snd p < cheight (canvas ctx) \<and>
      clipRegion ctx p \<and>
      dx \<le> of_int (fst p) + 1 / 2 \<and> of_int (fst p) + 1 / 2 < dx + dw \<and>
      dy \<le> of_int (snd p) + 1 / 2 \<and> of_int (snd p) + 1 / 2 < dy + dh)"

text \<open>
  \<^verbatim>\<open>ctx.drawImage(img, sx, sy, sw, sh, dx, dy, dw, dh)\<close>. An image that is a canvas with a
  zero dimension raises \<^verbatim>\<open>InvalidStateError\<close>; an empty source rectangle draws nothing.
  Mirrored (negative) extents do not occur in the program and are not modelled.
\<close>

definition drawImage ::
  "'c agent \<Rightarrow> 'c context2d \<Rightarrow> 'c canvas \<Rightarrow> real \<Rightarrow> real \<Rightarrow> real \<Rightarrow> real \<Rightarrow>
   real \<Rightarrow> real \<Rightarrow> real \<Rightarrow> real \<Rightarrow> error + 'c context2d" where
  "drawImage A ctx img sx sy sw sh dx dy dw dh =
     (if cwidth img = 0 \<or> cheight img = 0 then Inl InvalidStateError
      else if sw = 0 \<or> sh = 0 then Inr ctx
      else Inr (ctx\<lparr>canvas := (canvas ctx)\<lparr>bitmap := (\<lambda>p.
             if painted ctx dx dy dw dh p
             then (case sourcePixel A (imageSmoothingEnabled ctx) img
                          sx sy sw sh dx dy dw dh p of
                     None \<Rightarrow> bitmap (canvas ctx) p
                   | Some c \<Rightarrow> Some c)
             else bitmap (canvas ctx) p)\<rparr>\<rparr>))"

text \<open>The five- and three-argument forms of \<^verbatim>\<open>drawImage\<close>.\<close>

definition drawImage5 ::
  "'c agent \<Rightarrow> 'c context2d \<Rightarrow> 'c canvas \<Rightarrow> real \<Rightarrow> real \<Rightarrow> real \<Rightarrow> real \<Rightarrow>
   error + 'c context2d" where
  "drawImage5 A ctx img dx dy dw dh =
     drawImage A ctx img 0 0 (of_int (cwidth img)) (of_int (cheight img)) dx dy dw dh"

definition drawImage3 ::
  "'c agent \<Rightarrow> 'c context2d \<Rightarrow> 'c canvas \<Rightarrow> real \<Rightarrow> real \<Rightarrow> error + 'c context2d" where
  "drawImage3 A ctx img dx dy =
     drawImage5 A ctx img dx dy (of_int (cwidth img)) (of_int (cheight img))"

text \<open>
  Paths, clipping and the state stack. A path is its list of subpaths, each a list of
  points; the closed flag of a subpath only matters for stroking and is left out.
  \<^verbatim>\<open>save\<close> and \<^verbatim>\<open>restore\<close> keep the clipping region and the smoothing flag, not the
  current path and not the bitmap.
\<close>

definition beginPath :: "'c context2d \<Rightarrow> 'c context2d" where
  "beginPath ctx = ctx\<lparr>path := []\<rparr>"

definition moveTo :: "'c context2d \<Rightarrow> point \<Rightarrow> 'c context2d" where
  "moveTo ctx p = ctx\<lparr>path := path ctx @ [[p]]\<rparr>"

definition lineTo :: "'c context2d \<Rightarrow> point \<Rightarrow> 'c context2d" where
  "lineTo ctx p =
     (if path ctx = [] then moveTo ctx p
      else ctx\<lparr>path := butlast (path ctx) @ [last (path ctx) @ [p]]\<rparr>)"

definition closePath :: "'c context2d \<Rightarrow> 'c context2d" where
  "closePath ctx =
     (if path ctx = [] then ctx
      else case last (path ctx) of
             [] \<Rightarrow> ctx
           | p # rest \<Rightarrow> ctx\<lparr>path := path ctx @ [[p]]\<rparr>)"

definition clip :: "'c agent \<Rightarrow> 'c context2d \<Rightarrow> 'c context2d" where
  "clip A ctx = ctx\<lparr>clipRegion := (\<lambda>p. clipRegion ctx p \<and> covers A (path ctx) p)\<rparr>"

definition save :: "'c context2d \<Rightarrow> 'c context2d" where
  "save ctx = ctx\<lparr>saved := (clipRegion ctx, imageSmoothingEnabled ctx) # saved ctx\<rparr>"

definition restore :: "'c context2d \<Rightarrow> 'c context2d" where
  "restore ctx =
     (case saved ctx of
        [] \<Rightarrow> ctx
      | (c, s) # rest \<Rightarrow> ctx\<lparr>clipRegion := c, imageSmoothingEnabled := s, saved := rest\<rparr>)"

section \<open>The mosaic patch renderer\<close>

text \<open>
  \<open>buildMosaicPatch\<close>. With \<open>blockSize = 0\<close> both quotients are \<^verbatim>\<open>Infinity\<close> or \<^verbatim>\<open>NaN\<close>
  in JavaScript: the second canvas gets dimension 0, and the two later \<^verbatim>\<open>drawImage\<close>
  calls receive a non-finite argument and return before drawing, so the patch that
  comes back is blank. That branch is written out; HOL's \<open>x / 0 = 0\<close> is never used.
\<close>

definition buildMosaicPatch ::
  "'c agent \<Rightarrow> 'c canvas \<Rightarrow> real \<Rightarrow> real \<Rightarrow> real \<Rightarrow> real \<Rightarrow> real \<Rightarrow> error + 'c canvas" where
  "buildMosaicPatch A sourceCanvas x y w h blockSize =
     (let tmp1 = createCanvas \<lceil>w\<rceil> \<lceil>h\<rceil>;
          t1 = getContext tmp1
      in case drawImage A t1 sourceCanvas x y w h 0 0
                (of_int (cwidth tmp1)) (of_int (cheight tmp1)) of
           Inl e \<Rightarrow> Inl e
         | Inr t1' \<Rightarrow>
            (if blockSize = 0 then Inr (createCanvas (cwidth tmp1) (cheight tmp1))
             else
              (let sw = max 1 \<lfloor>of_int (cwidth tmp1) / blockSize\<rfloor>;
                   sh = max 1 \<lfloor>of_int (cheight tmp1) / blockSize\<rfloor>;
                   tmp2 = createCanvas sw sh;
                   t2 = (getContext tmp2)\<lparr>imageSmoothingEnabled := False\<rparr>
               in (case drawImage5 A t2 (canvas t1') 0 0 (of_int sw) (of_int sh) of
                     Inl e \<Rightarrow> Inl e
                   | Inr t2' \<Rightarrow>
                     (let out = createCanvas (cwidth tmp1) (cheight tmp1);
                          oc = (getContext out)\<lparr>imageSmoothingEnabled := False\<rparr>
                      in (case drawImage A oc (canvas t2') 0 0 (of_int sw) (of_int sh) 0 0
                                 (of_int (cwidth out)) (of_int (cheight out)) of
                            Inl e \<Rightarrow> Inl e
                          | Inr oc' \<Rightarrow> Inr (canvas oc')))))))"

section \<open>The face compositor\<close>

text \<open>
  The tail of \<open>mosaicFaceOval\<close>, the same in both files: save, trace the polygon through
  the points in order, close it, clip, draw the patch at \<open>(x, y)\<close> without smoothing,
  restore. Reading \<^verbatim>\<open>pts[0].x\<close> of an empty list would raise \<^verbatim>\<open>TypeError\<close>; both callers
  have returned before when there are fewer than three points.
\<close>

definition clipAndDraw ::
  "'c agent \<Rightarrow> 'c context2d \<Rightarrow> point list \<Rightarrow> 'c canvas \<Rightarrow> real \<Rightarrow> real \<Rightarrow>
   error + 'c context2d" where
  "clipAndDraw A ctx2d pts mosaicked x y =
     (case pts of
        [] \<Rightarrow> Inl TypeError
      | p0 # rest \<Rightarrow>
         (let c1 = save ctx2d;
              c2 = beginPath c1;
              c3 = moveTo c2 p0;
              c4 = foldl lineTo c3 rest;
              c5 = closePath c4;
              c6 = clip A c5;
              c7 = c6\<lparr>imageSmoothingEnabled := False\<rparr>
          in (case drawImage3 A c7 mosaicked x y of
                Inl e \<Rightarrow> Inl e
              | Inr c8 \<Rightarrow> Inr (restore c8))))"

text \<open>
  \<open>mosaicFaceOval\<close> of \<^verbatim>\<open>src/main.ts\<close> (batch page): raw points, padding \<open>0.10\<close>, the
  block size is a parameter. After the length test the list of points is not empty, so
  the bounding loop has left its initial state; the \<open>None\<close> branch is not reachable.
\<close>

definition mosaicFaceOval_batch ::
  "'c agent \<Rightarrow> 'c context2d \<Rightarrow> landmarks \<Rightarrow> real \<Rightarrow> real \<Rightarrow> real \<Rightarrow>
   error + 'c context2d" where
  "mosaicFaceOval_batch A ctx2d ls imgW imgH blockSize =
     (let pts = contourPts ls imgW imgH
      in if length pts < 3 then Inr ctx2d
         else case bounds pts of
                None \<Rightarrow> Inr ctx2d
              | Some b \<Rightarrow>
                  (case paddedRegion (10 / 100) b imgW imgH of
                     (x, y, cw, ch) \<Rightarrow>
                       (case buildMosaicPatch A (canvas ctx2d) x y cw ch blockSize of
                          Inl e \<Rightarrow> Inl e
                        | Inr mosaicked \<Rightarrow> clipAndDraw A ctx2d pts mosaicked x y)))"

text \<open>
  \<open>mosaicFaceOval\<close> of the single-image page: the points are expanded about their
  centroid, the padding is \<open>0.08\<close>, and the block size is derived from the width of the
  expanded box; the function has no block-size parameter.
\<close>

definition mosaicFaceOval_single ::
  "'c agent \<Rightarrow> 'c context2d \<Rightarrow> landmarks \<Rightarrow> real \<Rightarrow> real \<Rightarrow> error + 'c context2d" where
  "mosaicFaceOval_single A ctx2d ls imgW imgH =
     (let rawPts = contourPts ls imgW imgH
      in if length rawPts < 3 then Inr ctx2d
         else
           let pts = expandPts rawPts
           in case bounds pts of
                None \<Rightarrow> Inr ctx2d
              | Some (minX, minY, maxX, maxY) \<Rightarrow>
                  let w = maxX - minX;
                      blk = effectiveBlock w
                  in (case paddedRegion (8 / 100) (minX, minY, maxX, maxY) imgW imgH of
                        (x, y, cw, ch) \<Rightarrow>
                          (case buildMosaicPatch A (canvas ctx2d) x y cw ch blk of
                             Inl e \<Rightarrow> Inl e
                           | Inr mosaicked \<Rightarrow> clipAndDraw A ctx2d pts mosaicked x y)))"

section \<open>File names\<close>

text \<open>
  A JavaScript string is its list of UTF-16 code units, each a natural number;
  \<open>js\<close> writes an ASCII literal as such a list.
\<close>

type_synonym jsstring = "nat list"

definition js :: "string \<Rightarrow> jsstring" where
  "js s = map of_char s"

text \<open>
  \<^verbatim>\<open>name.replace(/\.[^.]+$/, "")\<close>: the match starts at the first position that holds a
  dot (46) followed by one or more code units, none of them a dot, up to the end.
\<close>

fun stripExt :: "jsstring \<Rightarrow> jsstring" where
  "stripExt [] = []"
| "stripExt (c # cs) =
     (if c = 46 \<and> cs \<noteq> [] \<and> 46 \<notin> set cs then [] else c # stripExt cs)"

text \<open>The class \<^verbatim>\<open>[\\/:*?"<>|]\<close>, by code unit.\<close>

definition unsafeUnits :: "nat list" where
  "unsafeUnits = [92, 47, 58, 42, 63, 34, 60, 62, 124]"

definition replaceUnsafe :: "jsstring \<Rightarrow> jsstring" where
  "replaceUnsafe s = map (\<lambda>c. if c \<in> set unsafeUnits then 95 else c) s"

text \<open>
  \<^verbatim>\<open>String.prototype.trim\<close> removes white space and line terminators from both ends.
\<close>

definition isWhite :: "nat \<Rightarrow> bool" where
  "isWhite c =
     (c \<in> set [9, 10, 11, 12, 13, 32, 160, 5760, 8232, 8233, 8239, 8287, 12288, 65279]
      \<or> (8192 \<le> c \<and> c \<le> 8202))"

definition trim :: "jsstring \<Rightarrow> jsstring" where
  "trim s = rev (dropWhile isWhite (rev (dropWhile isWhite s)))"

definition safeBaseName :: "jsstring \<Rightarrow> jsstring" where
  "safeBaseName name =
     (let base = stripExt name;
          r = trim (replaceUnsafe base)
      in if r = [] then js ''image'' else r)"

definition startsWith :: "jsstring \<Rightarrow> jsstring \<Rightarrow> bool" where
  "startsWith s pre = (take (length pre) s = pre)"

text \<open>
  Sanitisation as the specification words it: strip the final extension (the last dot
  and what follows it, when something follows), replace the nine characters, fall back
  to the default name when nothing is left. The second definition adds the trimming.
\<close>

definition stripFinalExtension :: "jsstring \<Rightarrow> jsstring" where
  "stripFinalExtension name =
     (let ext = takeWhile (\<lambda>c. c \<noteq> 46) (rev name)
      in if ext \<noteq> [] \<and> length ext < length name
         then take (length name - length ext - 1) name
         else name)"

definition sanitizeAsSpecified :: "jsstring \<Rightarrow> jsstring" where
  "sanitizeAsSpecified name =
     (let r = replaceUnsafe (stripFinalExtension name)
      in if r = [] then js ''image'' else r)"

definition sanitizeTrimmed :: "jsstring \<Rightarrow> jsstring" where
  "sanitizeTrimmed name =
     (let r = trim (replaceUnsafe (stripFinalExtension name))
      in if r = [] then js ''image'' else r)"

section \<open>The pages\<close>

text \<open>
  The landmarker handle is the detector behind it: \<^verbatim>\<open>lm.detect(img)\<close> may raise, and
  its result may lack \<^verbatim>\<open>faceLandmarks\<close> (read as the empty list by \<^verbatim>\<open>?? []\<close>).
  The status line has one constructor per message that a modelled function can leave
  on it; the messages that are overwritten before the function returns are left out.
\<close>

type_synonym 'c landmarker = "'c canvas \<Rightarrow> error + landmarks list option"

datatype status =
    Initial
  | Initializing
  | Ready
  | Processing nat nat jsstring
  | NoFaceKept jsstring
  | NoImageFiles
  | Completed nat
  | NoFaceFound
  | CompletedFaces nat
  | Failed

record 'c page =
  landmarker :: "'c landmarker option"
  strengthValue :: real
  statusText :: status

text \<open>
  \<open>initLandmarker\<close>. \<open>load\<close> is what the two awaited loading steps give at this
  attempt: an error when either rejects, the new handle otherwise. A rejection leaves
  the function before the assignment to \<^verbatim>\<open>landmarker\<close>.
\<close>

definition initLandmarker ::
  "error + 'c landmarker \<Rightarrow> ('c, 'z) page_scheme \<Rightarrow>
   (error + 'c landmarker) \<times> ('c, 'z) page_scheme" where
  "initLandmarker load st =
     (case landmarker st of
        Some lm \<Rightarrow> (Inr lm, st)
      | None \<Rightarrow>
          (case load of
             Inl e \<Rightarrow> (Inl e, st\<lparr>statusText := Initializing\<rparr>)
           | Inr lm \<Rightarrow> (Inr lm, st\<lparr>landmarker := Some lm, statusText := Ready\<rparr>)))"

record 'c imageFile =
  fname :: jsstring
  ftype :: jsstring
  decoded :: "'c canvas option"

text \<open>
  \<open>decoded\<close> is what \<^verbatim>\<open>createImageBitmap(file)\<close> resolves to, \<open>None\<close> when it rejects.
  A PNG blob is modelled by the pixels it encodes; \<^verbatim>\<open>toBlob\<close> hands \<^verbatim>\<open>null\<close> to its
  callback for a canvas without pixels. An archive is the list of its entries;
  \<^verbatim>\<open>zip.file(name, data)\<close> adds an entry or replaces the data of the entry of that name.
\<close>

definition canvasToPngBlob :: "'c canvas \<Rightarrow> error + 'c canvas" where
  "canvasToPngBlob c = (if cwidth c = 0 \<or> cheight c = 0 then Inl ToBlobFailed else Inr c)"

type_synonym 'c archive = "(jsstring \<times> 'c canvas) list"

fun zipFile :: "'c archive \<Rightarrow> jsstring \<Rightarrow> 'c canvas \<Rightarrow> 'c archive" where
  "zipFile [] name blob = [(name, blob)]"
| "zipFile ((n, b) # rest) name blob =
     (if n = name then (n, blob) # rest else (n, b) # zipFile rest name blob)"

text \<open>
  Assigning the width or height of a canvas clears its bitmap and resets its context.
\<close>

definition resizedContext :: "int \<Rightarrow> int \<Rightarrow> 'c context2d" where
  "resizedContext w h = getContext (createCanvas w h)"

definition clearRect ::
  "'c context2d \<Rightarrow> real \<Rightarrow> real \<Rightarrow> real \<Rightarrow> real \<Rightarrow> 'c context2d" where
  "clearRect ctx x y w h =
     ctx\<lparr>canvas := (canvas ctx)\<lparr>bitmap := (\<lambda>p.
       if painted ctx x y w h p then None else bitmap (canvas ctx) p)\<rparr>\<rparr>"

subsection \<open>The batch page\<close>

record 'c batchPage = "'c page" +
  preview :: "'c context2d"
  lastZipBlob :: "'c archive option"
  downloadDisabled :: bool

record 'c namedOutput =
  oname :: jsstring
  oblob :: "'c canvas"

text \<open>
  The loop over the detected faces in \<open>processOneFile\<close>: each face is composed onto the
  off-screen surface and onto the preview. An exception ends the loop.
\<close>

fun mosaicFaces ::
  "'c agent \<Rightarrow> 'c context2d \<Rightarrow> 'c context2d \<Rightarrow> landmarks list \<Rightarrow> real \<Rightarrow> real \<Rightarrow> real \<Rightarrow>
   error + 'c context2d \<times> 'c context2d" where
  "mosaicFaces A ctx pctx [] imgW imgH strength = Inr (ctx, pctx)"
| "mosaicFaces A ctx pctx (face # rest) imgW imgH strength =
     (case mosaicFaceOval_batch A ctx face imgW imgH strength of
        Inl e \<Rightarrow> Inl e
      | Inr ctx' \<Rightarrow>
          (case mosaicFaceOval_batch A pctx face imgW imgH strength of
             Inl e \<Rightarrow> Inl e
           | Inr pctx' \<Rightarrow> mosaicFaces A ctx' pctx' rest imgW imgH strength))"

text \<open>
  \<open>processOneFile\<close>. The result is the named output or the exception, with the page
  state; after an exception inside the face loop the state keeps the preview as it was
  before the loop.
\<close>

definition processOneFile ::
  "'c agent \<Rightarrow> error + 'c landmarker \<Rightarrow> 'c batchPage \<Rightarrow> 'c imageFile \<Rightarrow> nat \<Rightarrow> nat \<Rightarrow>
   (error + 'c namedOutput) \<times> 'c batchPage" where
  "processOneFile A load st f index tot =
     (case initLandmarker load st of
        (Inl e, st1) \<Rightarrow> (Inl e, st1)
      | (Inr lm, st1) \<Rightarrow>
         (let strength = strengthValue st1;
              st2 = st1\<lparr>statusText := Processing index tot (fname f)\<rparr>
          in case decoded f of
               None \<Rightarrow> (Inl DecodeFailed, st2)
             | Some img \<Rightarrow>
                (let c = createCanvas (cwidth img) (cheight img);
                     ctx = (getContext c)\<lparr>imageSmoothingEnabled := True\<rparr>
                 in case drawImage3 A ctx img 0 0 of
                      Inl e \<Rightarrow> (Inl e, st2)
                    | Inr ctx1 \<Rightarrow>
                       (case lm img of
                          Inl e \<Rightarrow> (Inl e, st2)
                        | Inr res \<Rightarrow>
                           (let faces = (case res of None \<Rightarrow> [] | Some fs \<Rightarrow> fs);
                                p0 = (resizedContext (cwidth img) (cheight img))
                                       \<lparr>imageSmoothingEnabled := True\<rparr>;
                                p1 = clearRect p0 0 0 (of_int (cwidth (canvas p0)))
                                       (of_int (cheight (canvas p0)))
                            in case drawImage3 A p1 img 0 0 of
                                 Inl e \<Rightarrow> (Inl e, st2\<lparr>preview := p1\<rparr>)
                               | Inr p2 \<Rightarrow>
                                  (let st3 = st2\<lparr>preview := p2\<rparr>
                                   in if length faces = 0
                                      then
                                       (case canvasToPngBlob (canvas ctx1) of
                                          Inl e \<Rightarrow>
                                            (Inl e, st3\<lparr>statusText := NoFaceKept (fname f)\<rparr>)
                                        | Inr blob \<Rightarrow>
                                            (Inr \<lparr>oname = safeBaseName (fname f) @ js ''_mosaic.png'',
                                                  oblob = blob\<rparr>,
                                             st3\<lparr>statusText := NoFaceKept (fname f)\<rparr>))
                                      else
                                       (case mosaicFaces A ctx1 p2 faces
                                               (of_int (cwidth img)) (of_int (cheight img))
                                               strength of
                                          Inl e \<Rightarrow> (Inl e, st3)
                                        | Inr (ctx2, p3) \<Rightarrow>
                                           (case canvasToPngBlob (canvas ctx2) of
                                              Inl e \<Rightarrow> (Inl e, st3\<lparr>preview := p3\<rparr>)
                                            | Inr blob \<Rightarrow>
                                                (Inr \<lparr>oname =
                                                        safeBaseName (fname f) @ js ''_mosaic.png'',
                                                      oblob = blob\<rparr>,
                                                 st3\<lparr>preview := p3\<rparr>)))))))))"

text \<open>
  The sequential loop of \<open>handleFiles\<close>: the counter, the call, the archive entry. The
  first exception leaves the loop for the \<^verbatim>\<open>catch\<close> block.
\<close>

fun processFiles ::
  "'c agent \<Rightarrow> error + 'c landmarker \<Rightarrow> 'c batchPage \<Rightarrow> 'c imageFile list \<Rightarrow> nat \<Rightarrow> nat \<Rightarrow>
   'c archive \<Rightarrow> (error + 'c archive) \<times> 'c batchPage" where
  "processFiles A load st [] i tot zp = (Inr zp, st)"
| "processFiles A load st (f # fs) i tot zp =
     (case processOneFile A load st f (i + 1) tot of
        (Inl e, st') \<Rightarrow> (Inl e, st')
      | (Inr out, st') \<Rightarrow>
          processFiles A load st' fs (i + 1) tot (zipFile zp (oname out) (oblob out)))"

text \<open>
  \<open>handleFiles\<close>. The generated archive blob is modelled by the entries of the archive;
  \<^verbatim>\<open>generateAsync\<close> is taken to succeed.
\<close>

definition handleFiles ::
  "'c agent \<Rightarrow> error + 'c landmarker \<Rightarrow> 'c batchPage \<Rightarrow> 'c imageFile list \<Rightarrow> 'c batchPage" where
  "handleFiles A load st files =
     (if length files = 0 then st
      else
        let imgs = filter (\<lambda>f. startsWith (ftype f) (js ''image/'')) files
        in if length imgs = 0 then st\<lparr>statusText := NoImageFiles\<rparr>
           else
             let st1 = st\<lparr>lastZipBlob := None, downloadDisabled := True\<rparr>
             in case processFiles A load st1 imgs 0 (length imgs) [] of
                  (Inl e, st2) \<Rightarrow> st2\<lparr>statusText := Failed\<rparr>
                | (Inr zp, st2) \<Rightarrow>
                    st2\<lparr>statusText := Completed (length imgs),
                        lastZipBlob := Some zp, downloadDisabled := False\<rparr>)"

subsection \<open>The single-image page\<close>

record 'c singlePage = "'c page" +
  surface :: "'c context2d"

fun mosaicFaces_single ::
  "'c agent \<Rightarrow> 'c context2d \<Rightarrow> landmarks list \<Rightarrow> real \<Rightarrow> real \<Rightarrow> error + 'c context2d" where
  "mosaicFaces_single A ctx [] imgW imgH = Inr ctx"
| "mosaicFaces_single A ctx (face # rest) imgW imgH =
     (case mosaicFaceOval_single A ctx face imgW imgH of
        Inl e \<Rightarrow> Inl e
      | Inr ctx' \<Rightarrow> mosaicFaces_single A ctx' rest imgW imgH)"

text \<open>
  \<open>processFile\<close> of the single-image page; every exception ends in its \<^verbatim>\<open>catch\<close> block,
  which sets the status. The slider value \<open>strengthValue\<close> is never read.
\<close>

definition processFile ::
  "'c agent \<Rightarrow> error + 'c landmarker \<Rightarrow> 'c singlePage \<Rightarrow> 'c imageFile \<Rightarrow> 'c singlePage" where
  "processFile A load st f =
     (case initLandmarker load st of
        (Inl e, st1) \<Rightarrow> st1\<lparr>statusText := Failed\<rparr>
      | (Inr lm, st1) \<Rightarrow>
          (case decoded f of
             None \<Rightarrow> st1\<lparr>statusText := Failed\<rparr>
           | Some img \<Rightarrow>
              (let c0 = (resizedContext (cwidth img) (cheight img))
                          \<lparr>imageSmoothingEnabled := True\<rparr>;
                   c1 = clearRect c0 0 0 (of_int (cwidth (canvas c0)))
                          (of_int (cheight (canvas c0)))
               in (case drawImage3 A c1 img 0 0 of
                    Inl e \<Rightarrow> st1\<lparr>surface := c1, statusText := Failed\<rparr>
                  | Inr c2 \<Rightarrow>
                      (case lm img of
                         Inl e \<Rightarrow> st1\<lparr>surface := c2, statusText := Failed\<rparr>
                       | Inr res \<Rightarrow>
                          (let faces = (case res of None \<Rightarrow> [] | Some fs \<Rightarrow> fs)
                           in if length faces = 0
                              then st1\<lparr>surface := c2, statusText := NoFaceFound\<rparr>
                              else
                                (case mosaicFaces_single A c2 faces
                                        (of_int (cwidth img)) (of_int (cheight img)) of
                                   Inl e \<Rightarrow> st1\<lparr>surface := c2, statusText := Failed\<rparr>
                                 | Inr c3 \<Rightarrow>
                                     st1\<lparr>surface := c3,
                                         statusText := CompletedFaces (length faces)\<rparr>)))))))"

section \<open>The contour polygon and reference inputs\<close>

text \<open>
  The closed loop through the vertices in order, as a canvas path: the subpath through
  all the points and the one-point subpath that \<^verbatim>\<open>closePath\<close> opens at the first vertex.
\<close>

definition contourPath :: "point list \<Rightarrow> point list list" where
  "contourPath pts = (case pts of [] \<Rightarrow> [] | p0 # rest \<Rightarrow> [p0 # rest, [p0]])"

text \<open>
  The geometry and the compositor contract in the words of the specification (its
  sections 4.2 and 4.4), to compare the source with: the centroid is the arithmetic mean
  of the points, the bounding box is the minimum and maximum of their coordinates, and,
  for a given clipping polygon, padding ratio and block size, the patch is rendered for
  the padded region of the target and drawn at the origin of the region under the
  polygon clip.
\<close>

definition mean :: "real list \<Rightarrow> real" where
  "mean xs = sum_list xs / real (length xs)"

definition boundingBox :: "point list \<Rightarrow> box" where
  "boundingBox pts =
     (Min (set (map fst pts)), Min (set (map snd pts)),
      Max (set (map fst pts)), Max (set (map snd pts)))"

definition boxWidth :: "point list \<Rightarrow> real" where
  "boxWidth pts = Max (set (map fst pts)) - Min (set (map fst pts))"

definition compose ::
  "'c agent \<Rightarrow> 'c context2d \<Rightarrow> point list \<Rightarrow> real \<Rightarrow> real \<Rightarrow> real \<Rightarrow> real \<Rightarrow>
   error + 'c context2d" where
  "compose A target polygon pad blockSize imgW imgH =
     (case paddedRegion pad (boundingBox polygon) imgW imgH of
        (x, y, cw, ch) \<Rightarrow>
          (case buildMosaicPatch A (canvas target) x y cw ch blockSize of
             Inl e \<Rightarrow> Inl e
           | Inr patch \<Rightarrow> clipAndDraw A target polygon patch x y))"

text \<open>
  A reference user agent for the examples: a pixel belongs to the fill of a path when
  the winding number of the path around the centre of the pixel is not zero, and the
  smoothing filter is the nearest source pixel.
\<close>

definition edgeWinding :: "point \<Rightarrow> point \<Rightarrow> point \<Rightarrow> int" where
  "edgeWinding q a b =
     (let side = (fst b - fst a) * (snd q - snd a) - (fst q - fst a) * (snd b - snd a)
      in if snd a \<le> snd q \<and> snd q < snd b \<and> 0 < side then 1
         else if snd b \<le> snd q \<and> snd q < snd a \<and> side < 0 then - 1
         else 0)"

definition winding :: "point \<Rightarrow> point list \<Rightarrow> int" where
  "winding q sub =
     (case sub of
        [] \<Rightarrow> 0
      | p0 # rest \<Rightarrow> sum_list (map (\<lambda>(a, b). edgeWinding q a b) (zip sub (rest @ [p0]))))"

definition centreCovers :: "point list list \<Rightarrow> pixel \<Rightarrow> bool" where
  "centreCovers pth p =
     (sum_list (map (winding (real_of_int (fst p) + 1 / 2, real_of_int (snd p) + 1 / 2)) pth) \<noteq> 0)"

definition nearestFilter :: "'c canvas \<Rightarrow> point \<Rightarrow> point \<Rightarrow> 'c option" where
  "nearestFilter img uv scale = pixelAt img (\<lfloor>fst uv\<rfloor>, \<lfloor>snd uv\<rfloor>)"

definition centreAgent :: "'c agent" where
  "centreAgent = \<lparr>covers = centreCovers, smooth = nearestFilter\<rparr>"

text \<open>An image whose pixel \<open>(i, j)\<close> has the colour \<open>i + 100 * j\<close>.\<close>

definition gradient :: "int \<Rightarrow> int \<Rightarrow> nat canvas" where
  "gradient w h = \<lparr>cwidth = w, cheight = h, bitmap = (\<lambda>p. Some (nat (fst p + 100 * snd p)))\<rparr>"

text \<open>
  Three faces, each a landmark array of length 55 that holds the oval indices 10, 21 and
  54 (or two of them): a triangle over most of a 10 by 10 image, a sliver inside the last
  pixel column of a 128 by 128 image, and a face with two usable points only.
\<close>

definition cornerFace :: landmarks where
  "cornerFace = (replicate 55 None)
     [10 := Some \<lparr>lx = 6 / 100, ly = 6 / 100\<rparr>,
      21 := Some \<lparr>lx = 96 / 100, ly = 6 / 100\<rparr>,
      54 := Some \<lparr>lx = 6 / 100, ly = 96 / 100\<rparr>]"

definition edgeFace :: landmarks where
  "edgeFace = (replicate 55 None)
     [10 := Some \<lparr>lx = 511 / 512, ly = 1 / 2\<rparr>,
      21 := Some \<lparr>lx = 1, ly = 1 / 4\<rparr>,
      54 := Some \<lparr>lx = 1, ly = 3 / 4\<rparr>]"

definition sparseFace :: landmarks where
  "sparseFace = (replicate 55 None)
     [10 := Some \<lparr>lx = 1 / 4, ly = 1 / 4\<rparr>,
      21 := Some \<lparr>lx = 3 / 4, ly = 3 / 4\<rparr>]"

text \<open>A detector that finds no face, the batch page before its first run, and files.\<close>

definition noFaces :: "nat landmarker" where
  "noFaces = (\<lambda>img. Inr (Some []))"

definition idlePage :: "nat batchPage" where
  "idlePage =
     \<lparr>landmarker = None, strengthValue = 16, statusText = Initial,
      preview = getContext (createCanvas 300 150), lastZipBlob = None,
      downloadDisabled = True\<rparr>"

definition pngFile :: "nat imageFile" where
  "pngFile = \<lparr>fname = js ''a.png'', ftype = js ''image/png'', decoded = Some (gradient 1 1)\<rparr>"

definition jpgFile :: "nat imageFile" where
  "jpgFile = \<lparr>fname = js ''a.jpg'', ftype = js ''image/jpeg'', decoded = Some (gradient 2 2)\<rparr>"

definition slashFile :: "nat imageFile" where
  "slashFile =
     \<lparr>fname = js ''a/b:c*.png'', ftype = js ''image/png'', decoded = Some (gradient 2 2)\<rparr>"

text \<open>A detector that finds the face \<open>cornerFace\<close>, and a photo of 10 by 10 pixels.\<close>

definition oneFace :: "nat landmarker" where
  "oneFace = (\<lambda>img. Inr (Some [cornerFace]))"

definition photoFile :: "nat imageFile" where
  "photoFile = \<lparr>fname = js ''photo.JPG'', ftype = js ''image/jpeg'', decoded = Some (gradient 10 10)\<rparr>"

section \<open>Landmark selection\<close>

lemma select_filter:
  "map (\<lambda>v. toPixel imgW imgH (the v)) (filter (\<lambda>v. v \<noteq> None) (map (landmarkAt ls) idx))
     = selectLandmarks ls imgW imgH idx"
  by (induction idx) (auto simp: toPixel_def split: option.splits)

text \<open>
  C7. The points that both versions of \<open>mosaicFaceOval\<close> compute are those of the
  selector of the specification run over \<open>FACE_OVAL\<close>: the 36 distinct indices are
  visited in their order, an absent or out-of-range landmark is omitted, a present one
  is scaled by the image width and height, and the order is kept. The function is total:
  no index raises.
\<close>

theorem landmark_subset_selection:
  "contourPts ls imgW imgH = selectLandmarks ls imgW imgH FACE_OVAL
   \<and> length FACE_OVAL = 36 \<and> distinct FACE_OVAL
   \<and> length (contourPts ls imgW imgH) \<le> 36"
proof -
  have "length (contourPts ls imgW imgH) \<le> length FACE_OVAL"
    unfolding contourPts_def
    using length_filter_le [of "\<lambda>v. v \<noteq> None" "map (landmarkAt ls) FACE_OVAL"] by simp
  then have "length (contourPts ls imgW imgH) \<le> 36"
    by (simp add: FACE_OVAL_def)
  then show ?thesis
    unfolding contourPts_def select_filter by (simp add: FACE_OVAL_def)
qed

section \<open>The bounding region\<close>

lemma foldl_boundsStep_Some:
  "foldl boundsStep (Some (a, b, c, d)) pts =
     Some (fold min (map fst pts) a, fold min (map snd pts) b,
           fold max (map fst pts) c, fold max (map snd pts) d)"
proof (induction pts arbitrary: a b c d)
  case Nil
  show ?case by simp
next
  case (Cons p ps)
  obtain px py where p: "p = (px, py)" by (cases p)
  show ?case unfolding p using Cons.IH by (simp add: min.commute max.commute)
qed

lemma bounds_Cons:
  "bounds ((px, py) # ps) =
     Some (fold min (map fst ps) px, fold min (map snd ps) py,
           fold max (map fst ps) px, fold max (map snd ps) py)"
  by (simp add: bounds_def foldl_boundsStep_Some)

lemma fold_min_Min: "fold min xs (x::real) = Min (set (x # xs))"
  by (rule Min.set_eq_fold [symmetric])

lemma fold_max_Max: "fold max xs (x::real) = Max (set (x # xs))"
  by (rule Max.set_eq_fold [symmetric])

lemma bounds_Min_Max:
  assumes "pts \<noteq> []"
  shows "bounds pts = Some (Min (set (map fst pts)), Min (set (map snd pts)),
                            Max (set (map fst pts)), Max (set (map snd pts)))"
proof -
  obtain px py ps where p: "pts = (px, py) # ps" using assms by (cases pts) auto
  show ?thesis unfolding p bounds_Cons fold_min_Min fold_max_Max by simp
qed

lemma clamp_lower: "mn \<le> clamp v mn mx"
  by (simp add: clamp_def)

lemma clamp_upper: "clamp v mn mx \<le> max mn mx"
  by (simp add: clamp_def)

lemma clamp_upper_ordered: "mn \<le> mx \<Longrightarrow> clamp v mn mx \<le> mx"
  by (simp add: clamp_def)

lemma paddedRegion_eq:
  "paddedRegion pad (minX, minY, maxX, maxY) imgW imgH =
     (clamp (minX - (maxX - minX) * pad) 0 imgW,
      clamp (minY - (maxY - minY) * pad) 0 imgH,
      clamp ((maxX - minX) * (1 + pad * 2)) 1 (imgW - clamp (minX - (maxX - minX) * pad) 0 imgW),
      clamp ((maxY - minY) * (1 + pad * 2)) 1 (imgH - clamp (minY - (maxY - minY) * pad) 0 imgH))"
  by (simp add: paddedRegion_def Let_def)

lemma paddedRegion_facts:
  assumes "paddedRegion pad b imgW imgH = (x, y, cw, ch)"
  shows "0 \<le> x" "0 \<le> y" "1 \<le> cw" "1 \<le> ch"
    "cw \<le> max 1 (imgW - x)" "ch \<le> max 1 (imgH - y)"
proof -
  obtain minX minY maxX maxY where b: "b = (minX, minY, maxX, maxY)" by (cases b)
  have x: "x = clamp (minX - (maxX - minX) * pad) 0 imgW"
    and y: "y = clamp (minY - (maxY - minY) * pad) 0 imgH"
    and cw: "cw = clamp ((maxX - minX) * (1 + pad * 2)) 1 (imgW - x)"
    and ch: "ch = clamp ((maxY - minY) * (1 + pad * 2)) 1 (imgH - y)"
    using assms unfolding b paddedRegion_eq by auto
  show "0 \<le> x" unfolding x by (rule clamp_lower)
  show "0 \<le> y" unfolding y by (rule clamp_lower)
  show "1 \<le> cw" unfolding cw by (rule clamp_lower)
  show "1 \<le> ch" unfolding ch by (rule clamp_lower)
  show "cw \<le> max 1 (imgW - x)" unfolding cw by (rule clamp_upper)
  show "ch \<le> max 1 (imgH - y)" unfolding ch by (rule clamp_upper)
qed

text \<open>
  What the clamping does give: the origin lies in the image, the extents are at least 1,
  and the region ends inside the image whenever the origin leaves room for one pixel.
\<close>

lemma paddedRegion_within:
  assumes reg: "paddedRegion pad b imgW imgH = (x, y, cw, ch)"
    and img: "0 \<le> imgW" "0 \<le> imgH"
  shows "0 \<le> x \<and> x \<le> imgW \<and> 0 \<le> y \<and> y \<le> imgH \<and> 1 \<le> cw \<and> 1 \<le> ch
    \<and> (x \<le> imgW - 1 \<longrightarrow> x + cw \<le> imgW) \<and> (y \<le> imgH - 1 \<longrightarrow> y + ch \<le> imgH)"
proof -
  note f = paddedRegion_facts [OF reg]
  obtain minX minY maxX maxY where b: "b = (minX, minY, maxX, maxY)" by (cases b)
  have x: "x = clamp (minX - (maxX - minX) * pad) 0 imgW"
    and y: "y = clamp (minY - (maxY - minY) * pad) 0 imgH"
    using reg unfolding b paddedRegion_eq by auto
  have "x \<le> imgW" unfolding x using img(1) by (rule clamp_upper_ordered)
  moreover have "y \<le> imgH" unfolding y using img(2) by (rule clamp_upper_ordered)
  moreover have "x \<le> imgW - 1 \<longrightarrow> x + cw \<le> imgW" using f(5) by auto
  moreover have "y \<le> imgH - 1 \<longrightarrow> y + ch \<le> imgH" using f(6) by auto
  ultimately show ?thesis using f(1-4) by simp
qed

text \<open>
  C2. The region is not always inside the image. For the face \<open>edgeFace\<close> on a
  128 by 128 image (three usable points, all landmarks within \<open>[0, 1]\<close>, the contour
  inside the last pixel column) the batch version computes the origin \<open>x = 127.725\<close>
  and, since \<open>imgW - x\<close> is below the lower clamp bound 1, the width \<open>cw = 1\<close>:
  \<open>x + cw\<close> is \<open>128.725\<close>, beyond the image width.
\<close>

theorem region_exceeds_image_width:
  "contourPts edgeFace 128 128 = [(511 / 4, 64), (128, 32), (128, 96)]
   \<and> bounds (contourPts edgeFace 128 128) = Some (511 / 4, 32, 128, 96)
   \<and> paddedRegion (10 / 100) (511 / 4, 32, 128, 96) 128 128 = (5109 / 40, 128 / 5, 1, 384 / 5)
   \<and> (128 :: real) < 5109 / 40 + 1"
proof -
  have pts: "contourPts edgeFace 128 128 = [(511 / 4, 64), (128, 32), (128, 96)]"
    by (simp add: contourPts_def FACE_OVAL_def landmarkAt_def edgeFace_def toPixel_def)
  have "bounds [(511 / 4, 64), (128, 32), (128, 96)] = Some (511 / 4, 32, 128, 96)"
    by (simp add: bounds_def)
  moreover have "paddedRegion (10 / 100) (511 / 4, 32, 128, 96) 128 128
      = (5109 / 40, 128 / 5, 1, 384 / 5)"
    by (simp add: paddedRegion_def clamp_def Let_def)
  ultimately show ?thesis unfolding pts by simp
qed

section \<open>Faces with fewer than three points\<close>

lemma skip_batch:
  "length (contourPts face imgW imgH) < 3 \<Longrightarrow>
   mosaicFaceOval_batch A ctx face imgW imgH bs = Inr ctx"
  by (simp add: mosaicFaceOval_batch_def)

lemma skip_single:
  "length (contourPts face imgW imgH) < 3 \<Longrightarrow>
   mosaicFaceOval_single A ctx face imgW imgH = Inr ctx"
  by (simp add: mosaicFaceOval_single_def)

lemma mosaicFaces_skip:
  "length (contourPts face imgW imgH) < 3 \<Longrightarrow>
   mosaicFaces A ctx pctx (before @ face # after) imgW imgH bs
     = mosaicFaces A ctx pctx (before @ after) imgW imgH bs"
  by (induction before arbitrary: ctx pctx) (auto simp: skip_batch split: sum.splits)

lemma mosaicFaces_single_skip:
  "length (contourPts face imgW imgH) < 3 \<Longrightarrow>
   mosaicFaces_single A ctx (before @ face # after) imgW imgH
     = mosaicFaces_single A ctx (before @ after) imgW imgH"
  by (induction before arbitrary: ctx) (auto simp: skip_single split: sum.splits)

text \<open>
  C3. A face whose selection yields fewer than three points is skipped: both versions of
  the compositor return the context they were given, unchanged in every field, and
  raise nothing. The face loops of both pages give the same result with the face as
  without it, so the faces before and after it are processed as usual.
\<close>

theorem skip_correctness:
  assumes "length (contourPts face imgW imgH) < 3"
  shows "mosaicFaceOval_batch A ctx face imgW imgH bs = Inr ctx
    \<and> mosaicFaceOval_single A ctx face imgW imgH = Inr ctx
    \<and> mosaicFaces A ctx pctx (before @ face # after) imgW imgH bs
        = mosaicFaces A ctx pctx (before @ after) imgW imgH bs
    \<and> mosaicFaces_single A ctx (before @ face # after) imgW imgH
        = mosaicFaces_single A ctx (before @ after) imgW imgH"
  using assms
  by (simp add: skip_batch skip_single mosaicFaces_skip mosaicFaces_single_skip)

lemma sparseFace_pts: "contourPts sparseFace 10 10 = [(5 / 2, 5 / 2), (15 / 2, 15 / 2)]"
  by (simp add: contourPts_def FACE_OVAL_def landmarkAt_def sparseFace_def toPixel_def)

theorem skip_correctness_witness:
  "length (contourPts sparseFace 10 10) < 3
   \<and> mosaicFaceOval_batch centreAgent (getContext (gradient 10 10)) sparseFace 10 10 16
       = Inr (getContext (gradient 10 10))
   \<and> mosaicFaceOval_single centreAgent (getContext (gradient 10 10)) sparseFace 10 10
       = Inr (getContext (gradient 10 10))
   \<and> mosaicFaces centreAgent (getContext (gradient 10 10)) (getContext (gradient 10 10))
        ([cornerFace] @ sparseFace # [cornerFace]) 10 10 16
       = mosaicFaces centreAgent (getContext (gradient 10 10)) (getContext (gradient 10 10))
           ([cornerFace] @ [cornerFace]) 10 10 16
   \<and> mosaicFaces_single centreAgent (getContext (gradient 10 10))
        ([cornerFace] @ sparseFace # [cornerFace]) 10 10
       = mosaicFaces_single centreAgent (getContext (gradient 10 10))
           ([cornerFace] @ [cornerFace]) 10 10"
proof -
  have short: "length (contourPts sparseFace 10 10) < 3"
    unfolding sparseFace_pts by simp
  show ?thesis
    using short
      skip_correctness [OF short, of centreAgent "getContext (gradient 10 10)" 16
        "getContext (gradient 10 10)" "[cornerFace]" "[cornerFace]"]
    by simp
qed

section \<open>Detector initialisation\<close>

text \<open>
  C9. When loading fails, the handle stays unset and the error is returned; the next
  call loads again, so its result is whatever that attempt gives. After one successful
  load every later call returns the same handle and leaves the page state (status line
  included) as it is, whatever a new attempt would have given: no load is started.
\<close>

theorem init_failure_not_memoized:
  assumes "landmarker st = None"
  shows "fst (initLandmarker (Inl e) st) = Inl e
    \<and> landmarker (snd (initLandmarker (Inl e) st)) = None
    \<and> fst (initLandmarker load (snd (initLandmarker (Inl e) st))) = load
    \<and> fst (initLandmarker (Inr lm) st) = Inr lm
    \<and> landmarker (snd (initLandmarker (Inr lm) st)) = Some lm
    \<and> initLandmarker load (snd (initLandmarker (Inr lm) st))
        = (Inr lm, snd (initLandmarker (Inr lm) st))"
  using assms by (auto simp: initLandmarker_def split: sum.splits option.splits)

theorem init_failure_not_memoized_witness:
  "landmarker idlePage = None
   \<and> fst (initLandmarker (Inl LoadFailed) idlePage) = Inl LoadFailed
   \<and> landmarker (snd (initLandmarker (Inl LoadFailed) idlePage)) = None
   \<and> fst (initLandmarker (Inr noFaces) (snd (initLandmarker (Inl LoadFailed) idlePage)))
       = Inr noFaces
   \<and> initLandmarker (Inl LoadFailed) (snd (initLandmarker (Inr noFaces) idlePage))
       = (Inr noFaces, snd (initLandmarker (Inr noFaces) idlePage))"
proof -
  have none: "landmarker idlePage = None" by (simp add: idlePage_def)
  show ?thesis
    using none
      init_failure_not_memoized [OF none, of LoadFailed "Inr noFaces" noFaces]
      init_failure_not_memoized [OF none, of LoadFailed "Inl LoadFailed" noFaces]
    by simp
qed

section \<open>Drawing on a fresh canvas and the mosaic patch\<close>

lemma canvasDim_id: "0 \<le> v \<Longrightarrow> v \<le> 2147483647 \<Longrightarrow> canvasDim d v = v"
  by (simp add: canvasDim_def Let_def)

lemma createCanvas_dims:
  "0 \<le> w \<Longrightarrow> w \<le> 2147483647 \<Longrightarrow> 0 \<le> h \<Longrightarrow> h \<le> 2147483647 \<Longrightarrow>
   cwidth (createCanvas w h) = w \<and> cheight (createCanvas w h) = h"
  by (simp add: createCanvas_def canvasDim_id)

lemma nearest_sourcePixel:
  "sourcePixel A False img 0 0 sw sh 0 0 dw dh p =
     pixelAt img (\<lfloor>(real_of_int (fst p) + 1 / 2) * sw / dw\<rfloor>, \<lfloor>(real_of_int (snd p) + 1 / 2) * sh / dh\<rfloor>)"
  by (simp add: sourcePixel_def Let_def)

lemma drawImage_fresh:
  assumes img: "cwidth img \<noteq> 0" "cheight img \<noteq> 0"
    and src: "sw \<noteq> 0" "sh \<noteq> 0"
    and dims: "0 \<le> W" "W \<le> 2147483647" "0 \<le> H" "H \<le> 2147483647"
  shows "\<exists>r. drawImage A ((getContext (createCanvas W H))\<lparr>imageSmoothingEnabled := s\<rparr>) img
                sx sy sw sh 0 0 (of_int W) (of_int H) = Inr r
             \<and> cwidth (canvas r) = W \<and> cheight (canvas r) = H
             \<and> (\<forall>p. pixelAt (canvas r) p =
                    (if 0 \<le> fst p \<and> fst p < W \<and> 0 \<le> snd p \<and> snd p < H
                     then sourcePixel A s img sx sy sw sh 0 0 (of_int W) (of_int H) p
                     else None))"
proof -
  have d: "cwidth (createCanvas W H :: 'a canvas) = W" "cheight (createCanvas W H :: 'a canvas) = H"
    using createCanvas_dims [OF dims] by auto
  have b: "bitmap (createCanvas W H :: 'a canvas) = (\<lambda>p. None)"
    by (simp add: createCanvas_def)
  show ?thesis
    using img src
    by (auto simp: drawImage_def getContext_def d b pixelAt_def painted_def split: option.splits)
qed

lemma block_count_bounds:
  assumes "1 \<le> bs" "1 \<le> W"
  shows "1 \<le> max 1 \<lfloor>of_int W / bs\<rfloor>" "max 1 \<lfloor>of_int W / bs\<rfloor> \<le> W"
proof -
  show "1 \<le> max 1 \<lfloor>of_int W / bs\<rfloor>" by simp
  have "of_int W / bs \<le> of_int W"
    using assms by (simp add: divide_le_eq mult_le_cancel_left1)
  then have "\<lfloor>of_int W / bs\<rfloor> \<le> W" by (simp add: floor_le_iff)
  then show "max 1 \<lfloor>of_int W / bs\<rfloor> \<le> W" using assms by simp
qed

lemma buildMosaicPatch_stages:
  fixes A :: "'c agent"
  assumes bs: "1 \<le> bs"
    and w: "0 < w" "\<lceil>w\<rceil> \<le> 2147483647"
    and h: "0 < h" "\<lceil>h\<rceil> \<le> 2147483647"
    and src: "cwidth src \<noteq> 0" "cheight src \<noteq> 0"
  shows "\<exists>t1 tmp2 out.
      drawImage A (getContext (createCanvas \<lceil>w\<rceil> \<lceil>h\<rceil>)) src x y w h 0 0
        (real_of_int \<lceil>w\<rceil>) (real_of_int \<lceil>h\<rceil>) = Inr t1
    \<and> cwidth (canvas t1) = \<lceil>w\<rceil> \<and> cheight (canvas t1) = \<lceil>h\<rceil>
    \<and> cwidth tmp2 = max 1 \<lfloor>real_of_int \<lceil>w\<rceil> / bs\<rfloor>
    \<and> cheight tmp2 = max 1 \<lfloor>real_of_int \<lceil>h\<rceil> / bs\<rfloor>
    \<and> (\<forall>p. pixelAt tmp2 p =
           (if 0 \<le> fst p \<and> fst p < cwidth tmp2 \<and> 0 \<le> snd p \<and> snd p < cheight tmp2
            then pixelAt (canvas t1)
                   (\<lfloor>(real_of_int (fst p) + 1 / 2) * real_of_int \<lceil>w\<rceil> / real_of_int (cwidth tmp2)\<rfloor>,
                    \<lfloor>(real_of_int (snd p) + 1 / 2) * real_of_int \<lceil>h\<rceil> / real_of_int (cheight tmp2)\<rfloor>)
            else None))
    \<and> buildMosaicPatch A src x y w h bs = Inr out
    \<and> cwidth out = \<lceil>w\<rceil> \<and> cheight out = \<lceil>h\<rceil>
    \<and> (\<forall>p. pixelAt out p =
           (if 0 \<le> fst p \<and> fst p < \<lceil>w\<rceil> \<and> 0 \<le> snd p \<and> snd p < \<lceil>h\<rceil>
            then pixelAt tmp2
                   (\<lfloor>(real_of_int (fst p) + 1 / 2) * real_of_int (cwidth tmp2) / real_of_int \<lceil>w\<rceil>\<rfloor>,
                    \<lfloor>(real_of_int (snd p) + 1 / 2) * real_of_int (cheight tmp2) / real_of_int \<lceil>h\<rceil>\<rfloor>)
            else None))"
proof -
  define W1 where "W1 = \<lceil>w\<rceil>"
  define H1 where "H1 = \<lceil>h\<rceil>"
  define sw where "sw = max 1 \<lfloor>of_int W1 / bs\<rfloor>"
  define sh where "sh = max 1 \<lfloor>of_int H1 / bs\<rfloor>"
  have W1: "1 \<le> W1" "W1 \<le> 2147483647" using w by (auto simp: W1_def)
  have H1: "1 \<le> H1" "H1 \<le> 2147483647" using h by (auto simp: H1_def)
  have sw: "1 \<le> sw" "sw \<le> W1"
    unfolding sw_def using block_count_bounds [OF bs W1(1)] by auto
  have sh: "1 \<le> sh" "sh \<le> H1"
    unfolding sh_def using block_count_bounds [OF bs H1(1)] by auto
  have dW: "cwidth (createCanvas W1 H1 :: 'c canvas) = W1" "cheight (createCanvas W1 H1 :: 'c canvas) = H1"
    using createCanvas_dims [of W1 H1] W1 H1 by auto
  have g: "getContext (createCanvas W1 H1 :: 'c canvas)
            = (getContext (createCanvas W1 H1))\<lparr>imageSmoothingEnabled := True\<rparr>"
    by (simp add: getContext_def)
  have wh: "w \<noteq> 0" "h \<noteq> 0" using w h by auto
  obtain t1 where t1:
    "drawImage A (getContext (createCanvas W1 H1)) src x y w h 0 0 (of_int W1) (of_int H1) = Inr t1"
    "cwidth (canvas t1) = W1" "cheight (canvas t1) = H1"
    using drawImage_fresh [OF src wh, of W1 H1 A True x y] W1 H1 unfolding g [symmetric] by auto
  have t1dims: "cwidth (canvas t1) \<noteq> 0" "cheight (canvas t1) \<noteq> 0"
    using t1 W1 H1 by auto
  have W1r: "(of_int W1 :: real) \<noteq> 0" "(of_int H1 :: real) \<noteq> 0" using W1 H1 by auto
  obtain t2 where t2:
    "drawImage A ((getContext (createCanvas sw sh))\<lparr>imageSmoothingEnabled := False\<rparr>) (canvas t1)
       0 0 (of_int W1) (of_int H1) 0 0 (of_int sw) (of_int sh) = Inr t2"
    "cwidth (canvas t2) = sw" "cheight (canvas t2) = sh"
    "\<forall>p. pixelAt (canvas t2) p =
        (if 0 \<le> fst p \<and> fst p < sw \<and> 0 \<le> snd p \<and> snd p < sh
         then sourcePixel A False (canvas t1) 0 0 (of_int W1) (of_int H1) 0 0 (of_int sw) (of_int sh) p
         else None)"
    using drawImage_fresh [OF t1dims W1r, of sw sh A False 0 0] sw sh W1 H1 by auto
  have t2dims: "cwidth (canvas t2) \<noteq> 0" "cheight (canvas t2) \<noteq> 0"
    using t2 sw sh by auto
  have swr: "(of_int sw :: real) \<noteq> 0" "(of_int sh :: real) \<noteq> 0" using sw sh by auto
  obtain oc where oc:
    "drawImage A ((getContext (createCanvas W1 H1))\<lparr>imageSmoothingEnabled := False\<rparr>) (canvas t2)
       0 0 (of_int sw) (of_int sh) 0 0 (of_int W1) (of_int H1) = Inr oc"
    "cwidth (canvas oc) = W1" "cheight (canvas oc) = H1"
    "\<forall>p. pixelAt (canvas oc) p =
        (if 0 \<le> fst p \<and> fst p < W1 \<and> 0 \<le> snd p \<and> snd p < H1
         then sourcePixel A False (canvas t2) 0 0 (of_int sw) (of_int sh) 0 0 (of_int W1) (of_int H1) p
         else None)"
    using drawImage_fresh [OF t2dims swr, of W1 H1 A False 0 0] W1 H1 by auto
  have bne: "bs \<noteq> 0" using bs by auto
  have run: "buildMosaicPatch A src x y w h bs = Inr (canvas oc)"
    unfolding buildMosaicPatch_def Let_def W1_def [symmetric] H1_def [symmetric] dW
    using t1 t2 oc bne
    by (simp add: drawImage5_def sw_def [symmetric] sh_def [symmetric])
  show ?thesis
    apply (rule exI [of _ t1], rule exI [of _ "canvas t2"], rule exI [of _ "canvas oc"])
    unfolding W1_def [symmetric] H1_def [symmetric]
    using t1 t2 oc run
    by (simp add: nearest_sourcePixel sw_def sh_def)
qed

text \<open>
  C4. For a block size of at least 1, a region of positive extent whose rounded-up
  extents fit a canvas dimension, and a source canvas with pixels, \<open>buildMosaicPatch\<close>
  returns a patch and goes through three stages: the extraction \<open>t1\<close> of the region into
  a buffer of \<open>ceil(w)\<close> by \<open>ceil(h)\<close>; the buffer \<open>tmp2\<close> of
  \<open>max(1, floor(ceil(w) / blockSize))\<close> by \<open>max(1, floor(ceil(h) / blockSize))\<close>, each of
  whose pixels is the extracted pixel under its centre; and the patch, of the size of
  the extraction, each of whose pixels is the pixel of \<open>tmp2\<close> under its centre, that
  is, the nearest-neighbour enlargement without smoothing.
\<close>

theorem mosaic_renderer_algorithm:
  fixes A :: "'c agent"
  assumes bs: "1 \<le> bs"
    and w: "0 < w" "\<lceil>w\<rceil> \<le> 2147483647"
    and h: "0 < h" "\<lceil>h\<rceil> \<le> 2147483647"
    and src: "cwidth src \<noteq> 0" "cheight src \<noteq> 0"
  shows "\<exists>t1 tmp2 out.
      drawImage A (getContext (createCanvas \<lceil>w\<rceil> \<lceil>h\<rceil>)) src x y w h 0 0
        (real_of_int \<lceil>w\<rceil>) (real_of_int \<lceil>h\<rceil>) = Inr t1
    \<and> cwidth (canvas t1) = \<lceil>w\<rceil> \<and> cheight (canvas t1) = \<lceil>h\<rceil>
    \<and> cwidth tmp2 = max 1 \<lfloor>real_of_int \<lceil>w\<rceil> / bs\<rfloor>
    \<and> cheight tmp2 = max 1 \<lfloor>real_of_int \<lceil>h\<rceil> / bs\<rfloor>
    \<and> (\<forall>p. pixelAt tmp2 p =
           (if 0 \<le> fst p \<and> fst p < cwidth tmp2 \<and> 0 \<le> snd p \<and> snd p < cheight tmp2
            then pixelAt (canvas t1)
                   (\<lfloor>(real_of_int (fst p) + 1 / 2) * real_of_int \<lceil>w\<rceil> / real_of_int (cwidth tmp2)\<rfloor>,
                    \<lfloor>(real_of_int (snd p) + 1 / 2) * real_of_int \<lceil>h\<rceil> / real_of_int (cheight tmp2)\<rfloor>)
            else None))
    \<and> buildMosaicPatch A src x y w h bs = Inr out
    \<and> cwidth out = \<lceil>w\<rceil> \<and> cheight out = \<lceil>h\<rceil>
    \<and> (\<forall>p. pixelAt out p =
           (if 0 \<le> fst p \<and> fst p < \<lceil>w\<rceil> \<and> 0 \<le> snd p \<and> snd p < \<lceil>h\<rceil>
            then pixelAt tmp2
                   (\<lfloor>(real_of_int (fst p) + 1 / 2) * real_of_int (cwidth tmp2) / real_of_int \<lceil>w\<rceil>\<rfloor>,
                    \<lfloor>(real_of_int (snd p) + 1 / 2) * real_of_int (cheight tmp2) / real_of_int \<lceil>h\<rceil>\<rfloor>)
            else None))"
  using assms by (rule buildMosaicPatch_stages)

theorem mosaic_renderer_algorithm_witness:
  "\<exists>(t1 :: nat context2d) (tmp2 :: nat canvas) out.
      cwidth (canvas t1) = 10 \<and> cheight (canvas t1) = 10
    \<and> cwidth tmp2 = 2 \<and> cheight tmp2 = 2
    \<and> buildMosaicPatch (centreAgent :: nat agent) (gradient 10 10) 0 0 (19 / 2) (19 / 2) 4 = Inr out
    \<and> cwidth out = 10 \<and> cheight out = 10
    \<and> pixelAt out (7, 1) = pixelAt tmp2 (1, 0)
    \<and> pixelAt tmp2 (1, 0) = pixelAt (canvas t1) (7, 2)"
proof -
  have h: "(1 :: real) \<le> 4" "(0 :: real) < 19 / 2" "\<lceil>19 / 2 :: real\<rceil> \<le> 2147483647"
    "cwidth (gradient 10 10) \<noteq> 0" "cheight (gradient 10 10) \<noteq> 0"
    by (simp_all add: gradient_def)
  have c: "\<lceil>19 / 2 :: real\<rceil> = 10" by simp
  have f: "max 1 \<lfloor>real_of_int 10 / 4\<rfloor> = 2" by simp
  note r = mosaic_renderer_algorithm [OF h(1) h(2) h(3) h(2) h(3) h(4) h(5), of centreAgent 0 0]
  show ?thesis
    using r unfolding c f
    apply (elim exE conjE)
    subgoal for t1 tmp2 out
      apply (rule_tac x = t1 in exI, rule_tac x = tmp2 in exI, rule_tac x = out in exI)
      apply (drule_tac x = "(1, 0)" in spec, drule_tac x = "(7, 1)" in spec)
      apply simp
      done
    done
qed

section \<open>Clipping to the contour\<close>

lemma lineTo_fields:
  "canvas (lineTo c q) = canvas c" "clipRegion (lineTo c q) = clipRegion c"
  "imageSmoothingEnabled (lineTo c q) = imageSmoothingEnabled c" "saved (lineTo c q) = saved c"
  by (simp_all add: lineTo_def moveTo_def)

lemma foldl_lineTo_fields:
  "canvas (foldl lineTo c qs) = canvas c \<and> clipRegion (foldl lineTo c qs) = clipRegion c
   \<and> imageSmoothingEnabled (foldl lineTo c qs) = imageSmoothingEnabled c
   \<and> saved (foldl lineTo c qs) = saved c"
  by (induction qs arbitrary: c) (simp_all add: lineTo_fields)

lemma foldl_lineTo_path:
  "path c = [sub] \<Longrightarrow> path (foldl lineTo c qs) = [sub @ qs]"
  by (induction qs arbitrary: c sub) (simp_all add: lineTo_def)

lemma traced_path:
  "path (closePath (foldl lineTo (moveTo (beginPath (save ctx)) p0) rest)) = contourPath (p0 # rest)"
proof -
  have "path (moveTo (beginPath (save ctx)) p0) = [[p0]]"
    by (simp add: moveTo_def beginPath_def save_def)
  then have "path (foldl lineTo (moveTo (beginPath (save ctx)) p0) rest) = [[p0] @ rest]"
    by (rule foldl_lineTo_path)
  then show ?thesis by (simp add: closePath_def contourPath_def)
qed

lemma traced_fields:
  "canvas (closePath (foldl lineTo (moveTo (beginPath (save ctx)) p0) rest)) = canvas ctx"
  "clipRegion (closePath (foldl lineTo (moveTo (beginPath (save ctx)) p0) rest)) = clipRegion ctx"
  "saved (closePath (foldl lineTo (moveTo (beginPath (save ctx)) p0) rest))
     = (clipRegion ctx, imageSmoothingEnabled ctx) # saved ctx"
  by (simp_all add: closePath_def foldl_lineTo_fields moveTo_def beginPath_def save_def
      split: list.splits)

lemma clipAndDraw_result:
  assumes m: "cwidth m \<noteq> 0" "cheight m \<noteq> 0" and pts: "pts \<noteq> []"
  shows "\<exists>r. clipAndDraw A ctx pts m x y = Inr r
    \<and> cwidth (canvas r) = cwidth (canvas ctx) \<and> cheight (canvas r) = cheight (canvas ctx)
    \<and> clipRegion r = clipRegion ctx \<and> imageSmoothingEnabled r = imageSmoothingEnabled ctx
    \<and> saved r = saved ctx
    \<and> (\<forall>p. bitmap (canvas r) p =
          (if 0 \<le> fst p \<and> fst p < cwidth (canvas ctx) \<and> 0 \<le> snd p \<and> snd p < cheight (canvas ctx)
              \<and> clipRegion ctx p \<and> covers A (contourPath pts) p
              \<and> x \<le> real_of_int (fst p) + 1 / 2 \<and> real_of_int (fst p) + 1 / 2 < x + real_of_int (cwidth m)
              \<and> y \<le> real_of_int (snd p) + 1 / 2 \<and> real_of_int (snd p) + 1 / 2 < y + real_of_int (cheight m)
           then (case pixelAt m (\<lfloor>real_of_int (fst p) + 1 / 2 - x\<rfloor>, \<lfloor>real_of_int (snd p) + 1 / 2 - y\<rfloor>) of
                   None \<Rightarrow> bitmap (canvas ctx) p | Some c \<Rightarrow> Some c)
           else bitmap (canvas ctx) p))"
proof -
  obtain p0 rest where pr: "pts = p0 # rest" using pts by (cases pts) auto
  define c5 where "c5 = closePath (foldl lineTo (moveTo (beginPath (save ctx)) p0) rest)"
  have f: "canvas c5 = canvas ctx" "clipRegion c5 = clipRegion ctx"
    "saved c5 = (clipRegion ctx, imageSmoothingEnabled ctx) # saved ctx"
    "path c5 = contourPath pts"
    unfolding c5_def pr by (simp_all add: traced_fields traced_path)
  have mr: "real_of_int (cwidth m) \<noteq> 0" "real_of_int (cheight m) \<noteq> 0" using m by auto
  show ?thesis
    unfolding clipAndDraw_def pr list.case Let_def c5_def [symmetric]
    using m mr f
    by (auto simp: drawImage3_def drawImage5_def drawImage_def clip_def restore_def painted_def
        sourcePixel_def Let_def pr split: option.splits)
qed

lemma clipAndDraw_frame:
  assumes "clipAndDraw A ctx pts m x y = Inr r" and "\<not> covers A (contourPath pts) p"
  shows "bitmap (canvas r) p = bitmap (canvas ctx) p"
proof -
  have pts: "pts \<noteq> []" using assms(1) by (auto simp: clipAndDraw_def)
  have m: "cwidth m \<noteq> 0 \<and> cheight m \<noteq> 0"
    using assms(1) pts
    by (auto simp: clipAndDraw_def drawImage3_def drawImage5_def drawImage_def Let_def
        split: list.splits if_splits)
  then obtain r' where r': "clipAndDraw A ctx pts m x y = Inr r'"
    "\<forall>p. bitmap (canvas r') p =
          (if 0 \<le> fst p \<and> fst p < cwidth (canvas ctx) \<and> 0 \<le> snd p \<and> snd p < cheight (canvas ctx)
              \<and> clipRegion ctx p \<and> covers A (contourPath pts) p
              \<and> x \<le> real_of_int (fst p) + 1 / 2 \<and> real_of_int (fst p) + 1 / 2 < x + real_of_int (cwidth m)
              \<and> y \<le> real_of_int (snd p) + 1 / 2 \<and> real_of_int (snd p) + 1 / 2 < y + real_of_int (cheight m)
           then (case pixelAt m (\<lfloor>real_of_int (fst p) + 1 / 2 - x\<rfloor>, \<lfloor>real_of_int (snd p) + 1 / 2 - y\<rfloor>) of
                   None \<Rightarrow> bitmap (canvas ctx) p | Some c \<Rightarrow> Some c)
           else bitmap (canvas ctx) p)"
    using clipAndDraw_result [of m pts A ctx x y] pts by blast
  have "r' = r" using r'(1) assms(1) by simp
  then show ?thesis using r'(2) [rule_format, of p] assms(2) by simp
qed

lemma ceiling_region:
  assumes "1 \<le> cw" "cw \<le> max 1 (imgW - x)" "0 \<le> x" "imgW \<le> 2147483647"
  shows "0 < cw" "\<lceil>cw\<rceil> \<le> 2147483647"
proof -
  show "0 < cw" using assms by simp
  have "cw \<le> 2147483647" using assms by (simp add: max_def split: if_splits)
  then show "\<lceil>cw\<rceil> \<le> 2147483647" by (simp add: ceiling_le_iff)
qed

lemma effectiveBlock_range: "12 \<le> effectiveBlock w" "effectiveBlock w \<le> 32"
  by (simp_all add: effectiveBlock_def)

lemma patch_exists:
  assumes reg: "paddedRegion pad b imgW imgH = (x, y, cw, ch)"
    and bs: "1 \<le> bs"
    and img: "imgW \<le> 2147483647" "imgH \<le> 2147483647"
    and src: "cwidth src \<noteq> 0" "cheight src \<noteq> 0"
  shows "\<exists>m. buildMosaicPatch A src x y cw ch bs = Inr m \<and> cwidth m \<noteq> 0 \<and> cheight m \<noteq> 0"
proof -
  note f = paddedRegion_facts [OF reg]
  have w: "0 < cw" "\<lceil>cw\<rceil> \<le> 2147483647" using ceiling_region [OF f(3) f(5) f(1) img(1)] by auto
  have h: "0 < ch" "\<lceil>ch\<rceil> \<le> 2147483647" using ceiling_region [OF f(4) f(6) f(2) img(2)] by auto
  obtain m where m: "buildMosaicPatch A src x y cw ch bs = Inr m" "cwidth m = \<lceil>cw\<rceil>" "cheight m = \<lceil>ch\<rceil>"
    using buildMosaicPatch_stages [OF bs w h src, of A x y] by auto
  have "\<lceil>cw\<rceil> \<noteq> 0" "\<lceil>ch\<rceil> \<noteq> 0"
    using w(1) h(1) by (metis zero_less_ceiling less_irrefl)+
  then show ?thesis using m by metis
qed

lemma batch_frame:
  assumes "mosaicFaceOval_batch A ctx ls imgW imgH bs = Inr r"
    and "\<not> covers A (contourPath (contourPts ls imgW imgH)) p"
  shows "bitmap (canvas r) p = bitmap (canvas ctx) p"
  using assms
  by (auto simp: mosaicFaceOval_batch_def Let_def dest: clipAndDraw_frame
      split: if_splits option.splits prod.splits sum.splits)

lemma single_frame:
  assumes "mosaicFaceOval_single A ctx ls imgW imgH = Inr r"
    and "\<not> covers A (contourPath (expandPts (contourPts ls imgW imgH))) p"
  shows "bitmap (canvas r) p = bitmap (canvas ctx) p"
  using assms
  by (auto simp: mosaicFaceOval_single_def Let_def dest: clipAndDraw_frame
      split: if_splits option.splits prod.splits sum.splits)

lemma batch_returns:
  assumes bs: "1 \<le> bs"
    and img: "imgW \<le> 2147483647" "imgH \<le> 2147483647"
    and src: "cwidth (canvas ctx) \<noteq> 0" "cheight (canvas ctx) \<noteq> 0"
  shows "\<exists>r. mosaicFaceOval_batch A ctx ls imgW imgH bs = Inr r
    \<and> cwidth (canvas r) = cwidth (canvas ctx) \<and> cheight (canvas r) = cheight (canvas ctx)
    \<and> clipRegion r = clipRegion ctx \<and> imageSmoothingEnabled r = imageSmoothingEnabled ctx
    \<and> saved r = saved ctx"
proof (cases "length (contourPts ls imgW imgH) < 3")
  case True
  then show ?thesis by (simp add: mosaicFaceOval_batch_def)
next
  case False
  then have ne: "contourPts ls imgW imgH \<noteq> []" by auto
  obtain b where b: "bounds (contourPts ls imgW imgH) = Some b"
    using bounds_Min_Max [OF ne] by auto
  obtain x y cw ch where reg: "paddedRegion (10 / 100) b imgW imgH = (x, y, cw, ch)"
    by (cases "paddedRegion (10 / 100) b imgW imgH") auto
  obtain m where m: "buildMosaicPatch A (canvas ctx) x y cw ch bs = Inr m"
    "cwidth m \<noteq> 0" "cheight m \<noteq> 0"
    using patch_exists [OF reg bs img src, of A] by auto
  show ?thesis
    using False b reg m clipAndDraw_result [OF m(2,3) ne, of A ctx x y]
    by (auto simp: mosaicFaceOval_batch_def Let_def)
qed

lemma single_returns:
  assumes img: "imgW \<le> 2147483647" "imgH \<le> 2147483647"
    and src: "cwidth (canvas ctx) \<noteq> 0" "cheight (canvas ctx) \<noteq> 0"
  shows "\<exists>r. mosaicFaceOval_single A ctx ls imgW imgH = Inr r
    \<and> cwidth (canvas r) = cwidth (canvas ctx) \<and> cheight (canvas r) = cheight (canvas ctx)
    \<and> clipRegion r = clipRegion ctx \<and> imageSmoothingEnabled r = imageSmoothingEnabled ctx
    \<and> saved r = saved ctx"
proof (cases "length (contourPts ls imgW imgH) < 3")
  case True
  then show ?thesis by (simp add: mosaicFaceOval_single_def)
next
  case False
  then have ne: "expandPts (contourPts ls imgW imgH) \<noteq> []" by (auto simp: expandPts_def Let_def)
  obtain minX minY maxX maxY where b: "bounds (expandPts (contourPts ls imgW imgH)) = Some (minX, minY, maxX, maxY)"
    using bounds_Min_Max [OF ne] by auto
  obtain x y cw ch where reg: "paddedRegion (8 / 100) (minX, minY, maxX, maxY) imgW imgH = (x, y, cw, ch)"
    by (cases "paddedRegion (8 / 100) (minX, minY, maxX, maxY) imgW imgH") auto
  have bs: "1 \<le> effectiveBlock (maxX - minX)" using effectiveBlock_range(1) [of "maxX - minX"] by simp
  obtain m where m: "buildMosaicPatch A (canvas ctx) x y cw ch (effectiveBlock (maxX - minX)) = Inr m"
    "cwidth m \<noteq> 0" "cheight m \<noteq> 0"
    using patch_exists [OF reg bs img src, of A] by auto
  show ?thesis
    using False b reg m clipAndDraw_result [OF m(2,3) ne, of A ctx x y]
    by (auto simp: mosaicFaceOval_single_def Let_def)
qed

lemma cornerFace_pts:
  "contourPts cornerFace 10 10 = [(3 / 5, 3 / 5), (48 / 5, 3 / 5), (3 / 5, 48 / 5)]"
  by (simp add: contourPts_def FACE_OVAL_def landmarkAt_def cornerFace_def toPixel_def)

lemma cornerFace_expanded:
  "expandPts [(3 / 5, 3 / 5), (48 / 5, 3 / 5), (3 / 5, 48 / 5)]
     = [(6 / 25, 6 / 25), (258 / 25, 6 / 25), (6 / 25, 258 / 25)]"
  by (simp add: expandPts_def centroid_def Let_def)

lemma cornerFace_region_batch:
  "bounds [(3 / 5, 3 / 5), (48 / 5, 3 / 5), (3 / 5, 48 / 5)] = Some (3 / 5, 3 / 5, 48 / 5, 48 / 5)"
  "paddedRegion (10 / 100) (3 / 5, 3 / 5, 48 / 5, 48 / 5) 10 10 = (0, 0, 10, 10)"
  by (simp_all add: bounds_def paddedRegion_def clamp_def Let_def)

lemma cornerFace_region_single:
  "bounds [(6 / 25, 6 / 25), (258 / 25, 6 / 25), (6 / 25, 258 / 25)]
     = Some (6 / 25, 6 / 25, 258 / 25, 258 / 25)"
  "paddedRegion (8 / 100) (6 / 25, 6 / 25, 258 / 25, 258 / 25) 10 10 = (0, 0, 10, 10)"
  "effectiveBlock (258 / 25 - 6 / 25) = 12"
  by (simp_all add: bounds_def paddedRegion_def clamp_def Let_def effectiveBlock_def)

lemma raw_not_covered:
  "\<not> centreCovers (contourPath [(3 / 5, 3 / 5), (48 / 5, 3 / 5), (3 / 5, 48 / 5)]) (0, 1)"
  by (simp add: centreCovers_def contourPath_def winding_def edgeWinding_def Let_def)

lemma expanded_covered:
  "centreCovers (contourPath [(6 / 25, 6 / 25), (258 / 25, 6 / 25), (6 / 25, 258 / 25)]) (0, 1)"
  by (simp add: centreCovers_def contourPath_def winding_def edgeWinding_def Let_def)

lemma far_not_covered:
  "\<not> centreCovers (contourPath [(6 / 25, 6 / 25), (258 / 25, 6 / 25), (6 / 25, 258 / 25)]) (9, 9)"
  "\<not> centreCovers (contourPath [(3 / 5, 3 / 5), (48 / 5, 3 / 5), (3 / 5, 48 / 5)]) (9, 9)"
  by (simp_all add: centreCovers_def contourPath_def winding_def edgeWinding_def Let_def)

text \<open>
  C1. Clip correctness, for both versions of the compositor and any user agent: when
  \<open>mosaicFaceOval\<close> returns, every pixel that the fill of the contour polygon does not
  touch holds what it held before (the polygon is the raw contour in the batch version,
  the expanded contour in the single-image version; the statement also covers faces with
  fewer than three points, where nothing is drawn). And it does return: on a surface
  with pixels and an image size within the canvas limit the single-image version never
  raises, nor does the batch version for a block size of at least 1.
\<close>

theorem clip_correctness:
  "(\<forall>r p. mosaicFaceOval_batch A ctx ls imgW imgH bs = Inr r
            \<and> \<not> covers A (contourPath (contourPts ls imgW imgH)) p
          \<longrightarrow> bitmap (canvas r) p = bitmap (canvas ctx) p)
   \<and> (\<forall>r p. mosaicFaceOval_single A ctx ls imgW imgH = Inr r
            \<and> \<not> covers A (contourPath (expandPts (contourPts ls imgW imgH))) p
          \<longrightarrow> bitmap (canvas r) p = bitmap (canvas ctx) p)
   \<and> (cwidth (canvas ctx) \<noteq> 0 \<and> cheight (canvas ctx) \<noteq> 0
        \<and> imgW \<le> 2147483647 \<and> imgH \<le> 2147483647
      \<longrightarrow> (\<exists>r. mosaicFaceOval_single A ctx ls imgW imgH = Inr r)
          \<and> (1 \<le> bs \<longrightarrow> (\<exists>r. mosaicFaceOval_batch A ctx ls imgW imgH bs = Inr r)))"
proof (intro conjI allI impI)
  fix r p
  assume "mosaicFaceOval_batch A ctx ls imgW imgH bs = Inr r
            \<and> \<not> covers A (contourPath (contourPts ls imgW imgH)) p"
  then show "bitmap (canvas r) p = bitmap (canvas ctx) p"
    using batch_frame by blast
next
  fix r p
  assume "mosaicFaceOval_single A ctx ls imgW imgH = Inr r
            \<and> \<not> covers A (contourPath (expandPts (contourPts ls imgW imgH))) p"
  then show "bitmap (canvas r) p = bitmap (canvas ctx) p"
    using single_frame by blast
next
  assume a: "cwidth (canvas ctx) \<noteq> 0 \<and> cheight (canvas ctx) \<noteq> 0
        \<and> imgW \<le> 2147483647 \<and> imgH \<le> 2147483647"
  then show "\<exists>r. mosaicFaceOval_single A ctx ls imgW imgH = Inr r"
    using single_returns [of imgW imgH ctx A ls] by blast
next
  assume a: "cwidth (canvas ctx) \<noteq> 0 \<and> cheight (canvas ctx) \<noteq> 0
        \<and> imgW \<le> 2147483647 \<and> imgH \<le> 2147483647" and b: "1 \<le> bs"
  then show "\<exists>r. mosaicFaceOval_batch A ctx ls imgW imgH bs = Inr r"
    using batch_returns [of bs imgW imgH ctx A ls] by blast
qed

theorem clip_correctness_witness:
  "\<exists>r1 r2.
     mosaicFaceOval_batch centreAgent (getContext (gradient 10 10)) cornerFace 10 10 16 = Inr r1
   \<and> bitmap (canvas r1) (0, 1) = bitmap (gradient 10 10) (0, 1)
   \<and> mosaicFaceOval_single centreAgent (getContext (gradient 10 10)) cornerFace 10 10 = Inr r2
   \<and> bitmap (canvas r2) (9, 9) = bitmap (gradient 10 10) (9, 9)"
proof -
  note t = clip_correctness [of centreAgent "getContext (gradient 10 10)" cornerFace 10 10 16]
  have d: "cwidth (canvas (getContext (gradient 10 10))) \<noteq> 0
      \<and> cheight (canvas (getContext (gradient 10 10))) \<noteq> 0
      \<and> (10 :: real) \<le> 2147483647 \<and> (10 :: real) \<le> 2147483647"
    by (simp add: getContext_def gradient_def)
  have b: "(1 :: real) \<le> 16" by simp
  obtain r1 where r1:
    "mosaicFaceOval_batch centreAgent (getContext (gradient 10 10)) cornerFace 10 10 16 = Inr r1"
    using t d b by blast
  obtain r2 where r2:
    "mosaicFaceOval_single centreAgent (getContext (gradient 10 10)) cornerFace 10 10 = Inr r2"
    using t d by blast
  have n1: "\<not> covers centreAgent (contourPath (contourPts cornerFace 10 10)) (0, 1)"
    unfolding cornerFace_pts using raw_not_covered by (simp add: centreAgent_def)
  have n2: "\<not> covers centreAgent (contourPath (expandPts (contourPts cornerFace 10 10))) (9, 9)"
    unfolding cornerFace_pts cornerFace_expanded using far_not_covered(1)
    by (simp add: centreAgent_def)
  have "bitmap (canvas r1) (0, 1) = bitmap (canvas (getContext (gradient 10 10))) (0, 1)"
    using t r1 n1 by blast
  moreover have "bitmap (canvas r2) (9, 9) = bitmap (canvas (getContext (gradient 10 10))) (9, 9)"
    using t r2 n2 by blast
  ultimately show ?thesis using r1 r2 by (auto simp: getContext_def)
qed

section \<open>File names and the batch\<close>

lemma stripExt_nodot: "46 \<notin> set s \<Longrightarrow> stripExt s = s"
  by (induction s) auto

lemma takeWhile_nodot: "46 \<notin> set s \<Longrightarrow> takeWhile (\<lambda>c. c \<noteq> (46::nat)) (rev s) = rev s"
  unfolding takeWhile_eq_all_conv by auto

lemma takeWhile_dot_less:
  assumes "46 \<in> set s"
  shows "length (takeWhile (\<lambda>c. c \<noteq> (46::nat)) (rev s)) < length s"
proof -
  let ?t = "takeWhile (\<lambda>c. c \<noteq> (46::nat)) (rev s)"
  have ne: "?t \<noteq> rev s"
    unfolding takeWhile_eq_all_conv using assms by auto
  have le: "length ?t \<le> length (rev s)" by (rule length_takeWhile_le)
  have "length ?t \<noteq> length (rev s)"
  proof
    assume e: "length ?t = length (rev s)"
    have "?t = take (length ?t) (rev s)" by (rule takeWhile_eq_take)
    also have "\<dots> = rev s" unfolding e by simp
    finally show False using ne by simp
  qed
  with le show ?thesis by simp
qed

lemma stripFinal_nodot:
  assumes "46 \<notin> set s"
  shows "stripFinalExtension s = s"
proof -
  have "length (takeWhile (\<lambda>c. c \<noteq> (46::nat)) (rev s)) = length s"
    unfolding takeWhile_nodot [OF assms] by simp
  then show ?thesis
    unfolding stripFinalExtension_def Let_def by simp
qed

lemma stripFinal_Cons_dot:
  assumes "46 \<in> set cs"
  shows "stripFinalExtension (c # cs) = c # stripFinalExtension cs"
proof -
  let ?t = "takeWhile (\<lambda>c. c \<noteq> (46::nat)) (rev cs)"
  have tw: "takeWhile (\<lambda>c. c \<noteq> (46::nat)) (rev (c # cs)) = ?t"
    using assms by simp
  have less: "length ?t < length cs" using assms by (rule takeWhile_dot_less)
  then have d: "length (c # cs) - length ?t - 1 = Suc (length cs - length ?t - 1)"
    by simp
  show ?thesis
    unfolding stripFinalExtension_def Let_def tw d using less by auto
qed

lemma stripFinal_dot_first:
  assumes "46 \<notin> set cs"
  shows "stripFinalExtension (46 # cs) = (if cs = [] then [46] else [])"
proof -
  have "\<And>x. x \<in> set (rev cs) \<Longrightarrow> x \<noteq> 46"
    using assms by auto
  then have "takeWhile (\<lambda>c. c \<noteq> (46::nat)) (rev cs @ [46]) = rev cs @ takeWhile (\<lambda>c. c \<noteq> 46) [46]"
    by (rule takeWhile_append2)
  then have tw: "takeWhile (\<lambda>c. c \<noteq> (46::nat)) (rev (46 # cs)) = rev cs"
    by simp
  show ?thesis
    unfolding stripFinalExtension_def Let_def tw by simp
qed

lemma stripExt_eq: "stripExt s = stripFinalExtension s"
proof (induction s)
  case Nil
  show ?case by (simp add: stripFinalExtension_def)
next
  case (Cons c cs)
  show ?case
  proof (cases "46 \<in> set cs")
    case True
    then show ?thesis using Cons.IH by (simp add: stripFinal_Cons_dot)
  next
    case False
    show ?thesis
    proof (cases "c = 46")
      case True
      then show ?thesis using False by (simp add: stripFinal_dot_first stripExt_nodot)
    next
      case c: False
      then have n: "46 \<notin> set (c # cs)" using False by simp
      show ?thesis
        unfolding stripExt_nodot [OF n] stripFinal_nodot [OF n] ..
    qed
  qed
qed

lemma safeBaseName_eq: "safeBaseName name = sanitizeTrimmed name"
  by (simp add: safeBaseName_def sanitizeTrimmed_def stripExt_eq)

lemma processOneFile_name:
  "processOneFile A load st f i n = (Inr out, st') \<Longrightarrow> oname out = safeBaseName (fname f) @ js ''_mosaic.png''"
  unfolding processOneFile_def Let_def
  by (simp split: sum.splits option.splits prod.splits if_splits) auto

lemma floor_half: "\<lfloor>real_of_int i + 1 / 2\<rfloor> = i"
  by (simp add: floor_unique)

lemma copy_sourcePixel:
  assumes "w \<noteq> 0" "h \<noteq> 0"
  shows "sourcePixel A s img 0 0 w h 0 0 w h p = pixelAt img p"
  using assms by (simp add: sourcePixel_def aligned_def isInt_def Let_def floor_half)

lemma drawImage3_copy:
  fixes img :: "'c canvas"
  assumes w: "0 < cwidth img" "cwidth img \<le> 2147483647"
    and h: "0 < cheight img" "cheight img \<le> 2147483647"
  shows "\<exists>r. drawImage3 A ((getContext (createCanvas (cwidth img) (cheight img)))
                   \<lparr>imageSmoothingEnabled := s\<rparr>) img 0 0 = Inr r
    \<and> cwidth (canvas r) = cwidth img \<and> cheight (canvas r) = cheight img
    \<and> (\<forall>p. pixelAt (canvas r) p = pixelAt img p)"
proof -
  have ne: "cwidth img \<noteq> 0" "cheight img \<noteq> 0"
    "real_of_int (cwidth img) \<noteq> 0" "real_of_int (cheight img) \<noteq> 0" using w h by auto
  have d: "0 \<le> cwidth img" "0 \<le> cheight img" using w h by auto
  obtain r where r:
    "drawImage A ((getContext (createCanvas (cwidth img) (cheight img)))\<lparr>imageSmoothingEnabled := s\<rparr>)
       img 0 0 (real_of_int (cwidth img)) (real_of_int (cheight img)) 0 0
       (real_of_int (cwidth img)) (real_of_int (cheight img)) = Inr r"
    "cwidth (canvas r) = cwidth img" "cheight (canvas r) = cheight img"
    "\<forall>p. pixelAt (canvas r) p =
        (if 0 \<le> fst p \<and> fst p < cwidth img \<and> 0 \<le> snd p \<and> snd p < cheight img
         then sourcePixel A s img 0 0 (real_of_int (cwidth img)) (real_of_int (cheight img)) 0 0
                (real_of_int (cwidth img)) (real_of_int (cheight img)) p
         else None)"
    using drawImage_fresh [OF ne, of "cwidth img" "cheight img" A s 0 0] d w(2) h(2) by blast
  have "\<forall>p. pixelAt (canvas r) p = pixelAt img p"
  proof
    fix p
    show "pixelAt (canvas r) p = pixelAt img p"
      using r(4) [rule_format, of p] copy_sourcePixel [OF ne(3,4), of A s img p]
      by (simp add: pixelAt_def)
  qed
  then show ?thesis using r(1,2,3) by (auto simp: drawImage3_def drawImage5_def)
qed

lemma initLandmarker_ready:
  assumes "landmarker st = Some lm \<or> (landmarker st = None \<and> load = Inr lm)"
  shows "\<exists>st1. initLandmarker load st = (Inr lm, st1) \<and> landmarker st1 = Some lm
     \<and> strengthValue st1 = strengthValue st"
  using assms by (auto simp: initLandmarker_def)

lemma processOneFile_no_faces:
  fixes img :: "'c canvas"
  assumes lm: "landmarker st = Some lm \<or> (landmarker st = None \<and> load = Inr lm)"
    and dec: "decoded f = Some img"
    and w: "0 < cwidth img" "cwidth img \<le> 2147483647"
    and h: "0 < cheight img" "cheight img \<le> 2147483647"
    and det: "lm img = Inr None \<or> lm img = Inr (Some [])"
  shows "\<exists>out st'. processOneFile A load st f i n = (Inr out, st')
    \<and> oname out = safeBaseName (fname f) @ js ''_mosaic.png''
    \<and> cwidth (oblob out) = cwidth img \<and> cheight (oblob out) = cheight img
    \<and> (\<forall>p. pixelAt (oblob out) p = pixelAt img p)
    \<and> landmarker st' = Some lm \<and> strengthValue st' = strengthValue st"
proof -
  obtain st1 where st1: "initLandmarker load st = (Inr lm, st1)" "landmarker st1 = Some lm"
    "strengthValue st1 = strengthValue st"
    using initLandmarker_ready [OF lm] by blast
  obtain r where r:
    "drawImage3 A ((getContext (createCanvas (cwidth img) (cheight img)))
        \<lparr>imageSmoothingEnabled := True\<rparr>) img 0 0 = Inr r"
    "cwidth (canvas r) = cwidth img" "cheight (canvas r) = cheight img"
    "\<forall>p. pixelAt (canvas r) p = pixelAt img p"
    using drawImage3_copy [OF w h, of A True] by blast
  obtain q where q:
    "drawImage3 A (clearRect ((resizedContext (cwidth img) (cheight img))\<lparr>imageSmoothingEnabled := True\<rparr>)
        0 0 (real_of_int (cwidth (canvas ((resizedContext (cwidth img) (cheight img) :: 'c context2d)\<lparr>imageSmoothingEnabled := True\<rparr>))))
        (real_of_int (cheight (canvas ((resizedContext (cwidth img) (cheight img) :: 'c context2d)\<lparr>imageSmoothingEnabled := True\<rparr>))))) img 0 0 = Inr q"
    using w h by (auto simp: drawImage3_def drawImage5_def drawImage_def)
  have blob: "canvasToPngBlob (canvas r) = Inr (canvas r)"
    using r(2,3) w h by (simp add: canvasToPngBlob_def)
  have faces: "(case (case lm img of Inr res \<Rightarrow> res) of None \<Rightarrow> [] | Some fs \<Rightarrow> fs) = []"
    using det by auto
  show ?thesis
    unfolding processOneFile_def st1(1)
    using det dec r q blob st1(2,3)
    by (auto simp: Let_def)
qed

text \<open>
  C8, as the claim states it, fails: the source trims white space from both ends of the
  sanitised name, which the claim's sanitisation does not. The file name \<open>" a.png"\<close>
  (with a leading blank) gives the entry \<open>"a_mosaic.png"\<close>, not \<open>" a_mosaic.png"\<close>.
\<close>

theorem entry_name_is_trimmed:
  "safeBaseName (js '' a.png'') @ js ''_mosaic.png''
     \<noteq> sanitizeAsSpecified (js '' a.png'') @ js ''_mosaic.png''"
  by (simp add: safeBaseName_def sanitizeAsSpecified_def stripFinalExtension_def js_def
      replaceUnsafe_def unsafeUnits_def trim_def isWhite_def)

text \<open>
  C8, amended. The base name computed by the source is the sanitisation with trimming:
  strip the final extension, replace each of the nine characters by an underscore, trim
  white space at both ends, fall back to \<open>"image"\<close> when nothing is left. Every output of
  \<open>processOneFile\<close> is named by it, followed by \<open>"_mosaic.png"\<close>, and the file name
  \<open>"a/b:c*.png"\<close> yields \<open>"a_b_c__mosaic.png"\<close>.
\<close>

theorem archive_entry_naming:
  "safeBaseName name = sanitizeTrimmed name
   \<and> (\<forall>out st'. processOneFile A load st f i n = (Inr out, st') \<longrightarrow>
          oname out = sanitizeTrimmed (fname f) @ js ''_mosaic.png'')
   \<and> sanitizeTrimmed (js ''a/b:c*.png'') @ js ''_mosaic.png'' = js ''a_b_c__mosaic.png''"
proof -
  have "sanitizeTrimmed (js ''a/b:c*.png'') @ js ''_mosaic.png'' = js ''a_b_c__mosaic.png''"
    unfolding safeBaseName_eq [symmetric]
    by (simp add: safeBaseName_def js_def replaceUnsafe_def unsafeUnits_def trim_def isWhite_def)
  then show ?thesis
    using processOneFile_name [of A load st f i n]
    by (simp add: safeBaseName_eq)
qed

theorem archive_entry_naming_witness:
  "\<exists>out st'. processOneFile centreAgent (Inr noFaces) idlePage slashFile 1 1 = (Inr out, st')
     \<and> oname out = js ''a_b_c__mosaic.png''"
proof -
  have l: "landmarker idlePage = Some noFaces
      \<or> (landmarker idlePage = None \<and> Inr noFaces = (Inr noFaces :: error + nat landmarker))"
    by (simp add: idlePage_def)
  obtain out st' where o:
    "processOneFile centreAgent (Inr noFaces) idlePage slashFile 1 1 = (Inr out, st')"
    using processOneFile_no_faces [OF l, of slashFile "gradient 2 2" centreAgent 1 1]
    by (auto simp: slashFile_def gradient_def noFaces_def)
  have "oname out = sanitizeTrimmed (fname slashFile) @ js ''_mosaic.png''"
    using archive_entry_naming [of "[]" centreAgent "Inr noFaces" idlePage slashFile 1 1] o
    by blast
  also have "\<dots> = js ''a_b_c__mosaic.png''"
    using archive_entry_naming [of "[]" centreAgent "Inr noFaces" idlePage slashFile 1 1]
    by (simp add: slashFile_def)
  finally show ?thesis using o by blast
qed

text \<open>
  The archive that a completed batch leaves holds one entry for each distinct output
  name: as many entries as files exactly when no two files share a sanitised base name.
\<close>

lemma zipFile_names:
  "map fst (zipFile zp name blob)
     = (if name \<in> set (map fst zp) then map fst zp else map fst zp @ [name])"
  by (induction zp name blob rule: zipFile.induct) auto

lemma processFiles_names:
  assumes "processFiles A load st fs i tot zp = (Inr zp', st')"
  shows "set (map fst zp') = set (map fst zp)
           \<union> (\<lambda>f. safeBaseName (fname f) @ js ''_mosaic.png'') ` set fs
    \<and> (distinct (map fst zp) \<longrightarrow> distinct (map fst zp'))"
  using assms
proof (induction fs arbitrary: st i zp)
  case Nil
  then show ?case by simp
next
  case (Cons f fs)
  obtain res st1 where p: "processOneFile A load st f (i + 1) tot = (res, st1)"
    by (cases "processOneFile A load st f (i + 1) tot")
  obtain out where out: "res = Inr out"
    using Cons.prems p by (cases res) auto
  have name: "oname out = safeBaseName (fname f) @ js ''_mosaic.png''"
    using processOneFile_name [of A load st f "i + 1" tot out st1] p out by simp
  have rest: "processFiles A load st1 fs (i + 1) tot (zipFile zp (oname out) (oblob out)) = (Inr zp', st')"
    using Cons.prems p out by simp
  note ih = Cons.IH [OF rest]
  show ?case
    using ih name by (auto simp: zipFile_names split: if_splits)
qed

lemma archive_size:
  assumes "processFiles A load st fs i tot [] = (Inr zp', st')"
  shows "length zp' = card ((\<lambda>f. safeBaseName (fname f) @ js ''_mosaic.png'') ` set fs)"
proof -
  have d: "distinct (map fst zp')"
    and s: "set (map fst zp') = (\<lambda>f. safeBaseName (fname f) @ js ''_mosaic.png'') ` set fs"
    using processFiles_names [OF assms] by auto
  have "card (set (map fst zp')) = length (map fst zp')" using d by (rule distinct_card)
  then show ?thesis unfolding s by simp
qed

lemma same_entry_names:
  "safeBaseName (js ''a.png'') @ js ''_mosaic.png'' = js ''a_mosaic.png''"
  "safeBaseName (js ''a.jpg'') @ js ''_mosaic.png'' = js ''a_mosaic.png''"
  by (simp_all add: safeBaseName_def js_def replaceUnsafe_def unsafeUnits_def trim_def isWhite_def)

lemma both_are_images: "filter (\<lambda>f. startsWith (ftype f) (js ''image/'')) [pngFile, jpgFile] = [pngFile, jpgFile]"
  by (simp add: startsWith_def js_def pngFile_def jpgFile_def)

text \<open>
  C6. A batch of two image files without faces whose names differ in the extension only,
  \<open>"a.png"\<close> and \<open>"a.jpg"\<close>: both outputs are named \<open>"a_mosaic.png"\<close>, the second
  \<^verbatim>\<open>zip.file\<close> call replaces the entry of the first, and the archive holds one entry
  while the status line reports two images.
\<close>

theorem same_base_name_overwrites:
  "map_option (map fst)
     (lastZipBlob (handleFiles centreAgent (Inr noFaces) idlePage [pngFile, jpgFile]))
     = Some [js ''a_mosaic.png'']
   \<and> statusText (handleFiles centreAgent (Inr noFaces) idlePage [pngFile, jpgFile]) = Completed 2"
proof -
  define st0 where "st0 = idlePage\<lparr>lastZipBlob := None, downloadDisabled := True\<rparr>"
  have l0: "landmarker st0 = Some noFaces \<or> (landmarker st0 = None \<and> Inr noFaces = (Inr noFaces :: error + nat landmarker))"
    by (simp add: st0_def idlePage_def)
  obtain out1 st1 where o1:
    "processOneFile centreAgent (Inr noFaces) st0 pngFile 1 2 = (Inr out1, st1)"
    "oname out1 = safeBaseName (fname pngFile) @ js ''_mosaic.png''"
    "landmarker st1 = Some noFaces"
    using processOneFile_no_faces [OF l0, of pngFile "gradient 1 1" centreAgent 1 2]
    by (auto simp: pngFile_def gradient_def noFaces_def)
  have l1: "landmarker st1 = Some noFaces \<or> (landmarker st1 = None \<and> Inr noFaces = (Inr noFaces :: error + nat landmarker))"
    using o1(3) by simp
  obtain out2 st2 where o2:
    "processOneFile centreAgent (Inr noFaces) st1 jpgFile 2 2 = (Inr out2, st2)"
    "oname out2 = safeBaseName (fname jpgFile) @ js ''_mosaic.png''"
    using processOneFile_no_faces [OF l1, of jpgFile "gradient 2 2" centreAgent 2 2]
    by (auto simp: jpgFile_def gradient_def noFaces_def)
  have n1: "oname out1 = js ''a_mosaic.png''" using o1(2) same_entry_names(1) by (simp add: pngFile_def)
  have n2: "oname out2 = js ''a_mosaic.png''" using o2(2) same_entry_names(2) by (simp add: jpgFile_def)
  have run: "processFiles centreAgent (Inr noFaces) st0 [pngFile, jpgFile] 0 2 []
      = (Inr [(js ''a_mosaic.png'', oblob out2)], st2)"
    using o1(1) o2(1) n1 n2 by (simp add: numeral_2_eq_2)
  have len: "length [pngFile, jpgFile] = 2" by simp
  show ?thesis
    unfolding handleFiles_def both_are_images Let_def st0_def [symmetric] len run by simp
qed

section \<open>The two compositors compared\<close>

lemma foldl_add: "foldl (\<lambda>s p. s + f p) a xs = a + sum_list (map f xs)"
  for a :: real
  by (induction xs arbitrary: a) simp_all

lemma centroid_mean: "centroid raw = (mean (map fst raw), mean (map snd raw))"
  by (simp add: centroid_def mean_def foldl_add)

lemma expandPts_mean:
  "expandPts raw =
     map (\<lambda>p. (mean (map fst raw) + (fst p - mean (map fst raw)) * (112 / 100),
               mean (map snd raw) + (snd p - mean (map snd raw)) * (112 / 100))) raw"
  by (simp add: expandPts_def Let_def centroid_mean)

lemma batch_compose:
  assumes "3 \<le> length (contourPts ls imgW imgH)"
  shows "mosaicFaceOval_batch A ctx ls imgW imgH bs
     = compose A ctx (contourPts ls imgW imgH) (10 / 100) bs imgW imgH"
proof -
  have ne: "contourPts ls imgW imgH \<noteq> []" using assms by auto
  have n3: "\<not> length (contourPts ls imgW imgH) < 3" using assms by simp
  show ?thesis
    unfolding mosaicFaceOval_batch_def compose_def Let_def boundingBox_def
    using n3 bounds_Min_Max [OF ne] by simp
qed

lemma single_compose:
  assumes "3 \<le> length (contourPts ls imgW imgH)"
  shows "mosaicFaceOval_single A ctx ls imgW imgH
     = compose A ctx (expandPts (contourPts ls imgW imgH)) (8 / 100)
         (effectiveBlock (boxWidth (expandPts (contourPts ls imgW imgH)))) imgW imgH"
proof -
  have ne: "expandPts (contourPts ls imgW imgH) \<noteq> []"
    using assms by (auto simp: expandPts_def Let_def)
  have n3: "\<not> length (contourPts ls imgW imgH) < 3" using assms by simp
  show ?thesis
    unfolding mosaicFaceOval_single_def compose_def Let_def boundingBox_def boxWidth_def
    using n3 bounds_Min_Max [OF ne] by simp
qed

lemma cornerFace_three: "3 \<le> length (contourPts cornerFace 10 10)"
  unfolding cornerFace_pts by simp

lemma single_pixel:
  "\<exists>r. mosaicFaceOval_single centreAgent (getContext (gradient 10 10)) cornerFace 10 10 = Inr r
     \<and> bitmap (canvas r) (0, 1) = Some 505"
proof -
  let ?A = "centreAgent :: nat agent"
  let ?src = "gradient 10 10"
  let ?pts = "[(6 / 25, 6 / 25), (258 / 25, 6 / 25), (6 / 25, 258 / 25)] :: point list"
  have h: "(1 :: real) \<le> 12" "(0 :: real) < 10" "\<lceil>10 :: real\<rceil> \<le> 2147483647"
    "cwidth ?src \<noteq> 0" "cheight ?src \<noteq> 0"
    by (simp_all add: gradient_def)
  have c: "\<lceil>10 :: real\<rceil> = 10" by simp
  have f: "max 1 \<lfloor>real_of_int 10 / 12\<rfloor> = 1" by simp
  obtain t1 tmp2 m where s:
    "drawImage ?A (getContext (createCanvas 10 10)) ?src 0 0 10 10 0 0 (real_of_int 10) (real_of_int 10) = Inr t1"
    "cwidth tmp2 = 1" "cheight tmp2 = 1"
    "\<forall>p. pixelAt tmp2 p =
           (if 0 \<le> fst p \<and> fst p < cwidth tmp2 \<and> 0 \<le> snd p \<and> snd p < cheight tmp2
            then pixelAt (canvas t1)
                   (\<lfloor>(real_of_int (fst p) + 1 / 2) * real_of_int 10 / real_of_int (cwidth tmp2)\<rfloor>,
                    \<lfloor>(real_of_int (snd p) + 1 / 2) * real_of_int 10 / real_of_int (cheight tmp2)\<rfloor>)
            else None)"
    "buildMosaicPatch ?A ?src 0 0 10 10 12 = Inr m"
    "cwidth m = 10" "cheight m = 10"
    "\<forall>p. pixelAt m p =
           (if 0 \<le> fst p \<and> fst p < 10 \<and> 0 \<le> snd p \<and> snd p < 10
            then pixelAt tmp2
                   (\<lfloor>(real_of_int (fst p) + 1 / 2) * real_of_int (cwidth tmp2) / real_of_int 10\<rfloor>,
                    \<lfloor>(real_of_int (snd p) + 1 / 2) * real_of_int (cheight tmp2) / real_of_int 10\<rfloor>)
            else None)"
    using buildMosaicPatch_stages [OF h(1) h(2) h(3) h(2) h(3) h(4) h(5), of ?A 0 0]
    unfolding c f by (elim exE conjE) (rule that)
  have g: "getContext (createCanvas 10 10 :: nat canvas)
            = (getContext (createCanvas 10 10))\<lparr>imageSmoothingEnabled := True\<rparr>"
    by (simp add: getContext_def)
  have r10: "real_of_int 10 \<noteq> 0" by simp
  obtain t1' where t1':
    "drawImage ?A (getContext (createCanvas 10 10)) ?src 0 0 (real_of_int 10) (real_of_int 10)
        0 0 (real_of_int 10) (real_of_int 10) = Inr t1'"
    "\<forall>p. pixelAt (canvas t1') p =
        (if 0 \<le> fst p \<and> fst p < 10 \<and> 0 \<le> snd p \<and> snd p < 10
         then sourcePixel ?A True ?src 0 0 (real_of_int 10) (real_of_int 10) 0 0
                (real_of_int 10) (real_of_int 10) p
         else None)"
    using drawImage_fresh [OF h(4) h(5) r10 r10, of 10 10 ?A True 0 0]
    unfolding g [symmetric] by auto
  have "t1' = t1" using t1'(1) s(1) by simp
  then have "pixelAt (canvas t1) (5, 5) = pixelAt ?src (5, 5)"
    using t1'(2) [rule_format, of "(5, 5)"] copy_sourcePixel [OF r10 r10, of ?A True ?src "(5, 5)"]
    by simp
  then have t15: "pixelAt (canvas t1) (5, 5) = Some 505"
    by (simp add: pixelAt_def gradient_def)
  have tmp00: "pixelAt tmp2 (0, 0) = Some 505"
    using s(4) [rule_format, of "(0, 0)"] s(2,3) t15 by simp
  have m01: "pixelAt m (0, 1) = Some 505"
    using s(8) [rule_format, of "(0, 1)"] s(2,3) tmp00 by simp
  have mne: "cwidth m \<noteq> 0" "cheight m \<noteq> 0" using s(6,7) by auto
  have pne: "?pts \<noteq> []" by simp
  obtain r where r:
    "clipAndDraw ?A (getContext ?src) ?pts m 0 0 = Inr r"
    "\<forall>p. bitmap (canvas r) p =
          (if 0 \<le> fst p \<and> fst p < cwidth (canvas (getContext ?src)) \<and> 0 \<le> snd p
              \<and> snd p < cheight (canvas (getContext ?src))
              \<and> clipRegion (getContext ?src) p \<and> covers ?A (contourPath ?pts) p
              \<and> 0 \<le> real_of_int (fst p) + 1 / 2 \<and> real_of_int (fst p) + 1 / 2 < 0 + real_of_int (cwidth m)
              \<and> 0 \<le> real_of_int (snd p) + 1 / 2 \<and> real_of_int (snd p) + 1 / 2 < 0 + real_of_int (cheight m)
           then (case pixelAt m (\<lfloor>real_of_int (fst p) + 1 / 2 - 0\<rfloor>, \<lfloor>real_of_int (snd p) + 1 / 2 - 0\<rfloor>) of
                   None \<Rightarrow> bitmap (canvas (getContext ?src)) p | Some c \<Rightarrow> Some c)
           else bitmap (canvas (getContext ?src)) p)"
    using clipAndDraw_result [OF mne pne, of ?A "getContext ?src" 0 0] by blast
  have cov: "covers ?A (contourPath ?pts) (0, 1)"
    using expanded_covered by (simp add: centreAgent_def)
  have px: "bitmap (canvas r) (0, 1) = Some 505"
    using r(2) [rule_format, of "(0, 1)"] cov m01 s(6,7)
    by (simp add: getContext_def gradient_def)
  have run: "mosaicFaceOval_single ?A (getContext ?src) cornerFace 10 10 = Inr r"
    unfolding mosaicFaceOval_single_def cornerFace_pts Let_def cornerFace_expanded
    using cornerFace_region_single s(5) r(1)
    by (simp add: getContext_def)
  show ?thesis using run px by blast
qed

lemma batch_pixel:
  assumes "mosaicFaceOval_batch centreAgent (getContext (gradient 10 10)) cornerFace 10 10 bs = Inr r"
  shows "bitmap (canvas r) (0, 1) = Some 100"
proof -
  have n1: "\<not> covers centreAgent (contourPath (contourPts cornerFace 10 10)) (0, 1)"
    unfolding cornerFace_pts using raw_not_covered by (simp add: centreAgent_def)
  have "bitmap (canvas r) (0, 1) = bitmap (canvas (getContext (gradient 10 10))) (0, 1)"
    using batch_frame [OF assms n1] .
  then show ?thesis by (simp add: getContext_def gradient_def)
qed

lemma batch_corner_returns:
  assumes "1 \<le> bs"
  shows "\<exists>r1. mosaicFaceOval_batch centreAgent (getContext (gradient 10 10)) cornerFace 10 10 bs
           = Inr r1"
  using batch_returns [OF assms, of 10 10 "getContext (gradient 10 10)" centreAgent cornerFace]
  by (auto simp: getContext_def gradient_def)

text \<open>
  C10. The two entry points are not equivalent. For a face with at least three points
  the batch version is the compositor contract run on the raw points with padding
  \<open>0.10\<close>, the single-image version is the contract run on the expanded points with
  padding \<open>0.08\<close> (and its derived block size); the expansion moves every point away
  from the arithmetic mean of the points by the factor \<open>1.12\<close>. The output surfaces
  differ: with the reference agent, the 10 by 10 gradient image (whose pixel \<open>(0, 1)\<close>
  has colour \<open>100\<close>) and the face \<open>cornerFace\<close>, the single-image version returns a
  surface whose pixel \<open>(0, 1)\<close> has the mosaic colour \<open>505\<close>, every surface the batch
  version returns, whatever its block size, keeps colour \<open>100\<close> at that pixel, and the
  batch version does return a surface for every block size of at least one. Pixel
  \<open>(0, 1)\<close> lies outside the raw polygon and inside the expanded one.
\<close>

theorem entry_points_not_equivalent:
  "(3 \<le> length (contourPts ls imgW imgH) \<longrightarrow>
      mosaicFaceOval_batch A ctx ls imgW imgH bs
        = compose A ctx (contourPts ls imgW imgH) (10 / 100) bs imgW imgH
    \<and> mosaicFaceOval_single A ctx ls imgW imgH
        = compose A ctx (expandPts (contourPts ls imgW imgH)) (8 / 100)
            (effectiveBlock (boxWidth (expandPts (contourPts ls imgW imgH)))) imgW imgH)
   \<and> expandPts raw =
       map (\<lambda>p. (mean (map fst raw) + (fst p - mean (map fst raw)) * (112 / 100),
                 mean (map snd raw) + (snd p - mean (map snd raw)) * (112 / 100))) raw
   \<and> bitmap (canvas (getContext (gradient 10 10))) (0, 1) = Some 100
   \<and> (\<exists>r2. mosaicFaceOval_single centreAgent (getContext (gradient 10 10)) cornerFace 10 10
               = Inr r2
          \<and> bitmap (canvas r2) (0, 1) = Some 505)
   \<and> (\<forall>blockSize r1.
         mosaicFaceOval_batch centreAgent (getContext (gradient 10 10)) cornerFace 10 10 blockSize
           = Inr r1
         \<longrightarrow> bitmap (canvas r1) (0, 1) = Some 100)
   \<and> (\<forall>blockSize. 1 \<le> blockSize \<longrightarrow>
         (\<exists>r1. mosaicFaceOval_batch centreAgent (getContext (gradient 10 10)) cornerFace 10 10
                  blockSize = Inr r1))"
proof -
  have src: "bitmap (canvas (getContext (gradient 10 10))) (0, 1) = Some 100"
    by (simp add: getContext_def gradient_def)
  have every: "\<forall>blockSize r1.
         mosaicFaceOval_batch centreAgent (getContext (gradient 10 10)) cornerFace 10 10 blockSize
           = Inr r1
         \<longrightarrow> bitmap (canvas r1) (0, 1) = Some 100"
    using batch_pixel by blast
  have ret: "\<forall>blockSize. 1 \<le> blockSize \<longrightarrow>
         (\<exists>r1. mosaicFaceOval_batch centreAgent (getContext (gradient 10 10)) cornerFace 10 10
                  blockSize = Inr r1)"
    using batch_corner_returns by blast
  show ?thesis
    using batch_compose [of ls imgW imgH A ctx bs] single_compose [of ls imgW imgH A ctx]
      expandPts_mean [of raw] src single_pixel every ret
    by blast
qed

theorem entry_points_not_equivalent_witness:
  "3 \<le> length (contourPts cornerFace 10 10)
   \<and> mosaicFaceOval_batch centreAgent (getContext (gradient 10 10)) cornerFace 10 10 16
       = compose centreAgent (getContext (gradient 10 10))
           (contourPts cornerFace 10 10) (10 / 100) 16 10 10
   \<and> mosaicFaceOval_single centreAgent (getContext (gradient 10 10)) cornerFace 10 10
       = compose centreAgent (getContext (gradient 10 10))
           (expandPts (contourPts cornerFace 10 10)) (8 / 100)
           (effectiveBlock (boxWidth (expandPts (contourPts cornerFace 10 10)))) 10 10
   \<and> contourPts cornerFace 10 10 = [(3 / 5, 3 / 5), (48 / 5, 3 / 5), (3 / 5, 48 / 5)]
   \<and> expandPts (contourPts cornerFace 10 10)
       = [(6 / 25, 6 / 25), (258 / 25, 6 / 25), (6 / 25, 258 / 25)]
   \<and> (\<exists>r1 r2.
         mosaicFaceOval_batch centreAgent (getContext (gradient 10 10)) cornerFace 10 10 16 = Inr r1
       \<and> mosaicFaceOval_single centreAgent (getContext (gradient 10 10)) cornerFace 10 10 = Inr r2
       \<and> bitmap (canvas r1) (0, 1) = Some 100
       \<and> bitmap (canvas r2) (0, 1) = Some 505
       \<and> bitmap (canvas r1) (0, 1) \<noteq> bitmap (canvas r2) (0, 1))"
proof -
  note t = entry_points_not_equivalent [where ls = cornerFace and imgW = 10 and imgH = 10
      and A = "centreAgent :: nat agent" and ctx = "getContext (gradient 10 10)" and bs = 16
      and raw = "[]"]
  have e: "expandPts (contourPts cornerFace 10 10)
       = [(6 / 25, 6 / 25), (258 / 25, 6 / 25), (6 / 25, 258 / 25)]"
    unfolding cornerFace_pts by (rule cornerFace_expanded)
  have one: "(1 :: real) \<le> 16" by simp
  obtain r1 where r1:
    "mosaicFaceOval_batch centreAgent (getContext (gradient 10 10)) cornerFace 10 10 16 = Inr r1"
    using t one by blast
  have p1: "bitmap (canvas r1) (0, 1) = Some 100" using t r1 by blast
  obtain r2 where r2:
    "mosaicFaceOval_single centreAgent (getContext (gradient 10 10)) cornerFace 10 10 = Inr r2"
    "bitmap (canvas r2) (0, 1) = Some 505"
    using t by blast
  have ne: "bitmap (canvas r1) (0, 1) \<noteq> bitmap (canvas r2) (0, 1)"
    unfolding p1 r2(2) by simp
  have eqs: "mosaicFaceOval_batch centreAgent (getContext (gradient 10 10)) cornerFace 10 10 16
       = compose centreAgent (getContext (gradient 10 10))
           (contourPts cornerFace 10 10) (10 / 100) 16 10 10
   \<and> mosaicFaceOval_single centreAgent (getContext (gradient 10 10)) cornerFace 10 10
       = compose centreAgent (getContext (gradient 10 10))
           (expandPts (contourPts cornerFace 10 10)) (8 / 100)
           (effectiveBlock (boxWidth (expandPts (contourPts cornerFace 10 10)))) 10 10"
    using t cornerFace_three by blast
  show ?thesis
    using cornerFace_three eqs cornerFace_pts e r1 r2 p1 ne by blast
qed

section \<open>The block size\<close>

lemma processFile_ignores_slider:
  "processFile A load (st\<lparr>strengthValue := s\<rparr>) f = (processFile A load st f)\<lparr>strengthValue := s\<rparr>"
  unfolding processFile_def initLandmarker_def Let_def
  by (simp split: option.splits sum.splits)

lemma clearRect_fresh:
  "clearRect ((getContext (createCanvas W H))\<lparr>imageSmoothingEnabled := s\<rparr>) x y w h
     = (getContext (createCanvas W H))\<lparr>imageSmoothingEnabled := s\<rparr>"
  by (simp add: clearRect_def createCanvas_def getContext_def cong: if_cong)

lemma cornerFace_block:
  "clamp (boxWidth (expandPts (contourPts cornerFace 10 10)) / 12) 12 32 = 12"
  unfolding cornerFace_pts cornerFace_expanded
  by (simp add: boxWidth_def clamp_def)

lemma drawImage_keeps:
  assumes "drawImage A ctx img sx sy sw sh dx dy dw dh = Inr r"
  shows "clipRegion r = clipRegion ctx \<and> cwidth (canvas r) = cwidth (canvas ctx)
    \<and> cheight (canvas r) = cheight (canvas ctx)"
  using assms by (auto simp: drawImage_def split: if_splits)

lemma raw_covered_inside:
  "centreCovers (contourPath [(3 / 5, 3 / 5), (48 / 5, 3 / 5), (3 / 5, 48 / 5)]) (2, 3)"
  by (simp add: centreCovers_def contourPath_def winding_def edgeWinding_def Let_def)

lemma batch_cornerFace_inside:
  fixes ctx :: "nat context2d"
  assumes d: "cwidth (canvas ctx) = 10" "cheight (canvas ctx) = 10"
    and cl: "clipRegion ctx (2, 3)"
    and px: "\<forall>q. pixelAt (canvas ctx) q = pixelAt (gradient 10 10) q"
    and bs: "1 \<le> bs"
    and k: "max 1 \<lfloor>real_of_int 10 / bs\<rfloor> = k"
    and ij: "\<lfloor>(real_of_int 2 + 1 / 2) * real_of_int k / real_of_int 10\<rfloor> = i"
      "\<lfloor>(real_of_int 3 + 1 / 2) * real_of_int k / real_of_int 10\<rfloor> = j"
      "0 \<le> i" "i < k" "0 \<le> j" "j < k"
    and uv: "\<lfloor>(real_of_int i + 1 / 2) * real_of_int 10 / real_of_int k\<rfloor> = u"
      "\<lfloor>(real_of_int j + 1 / 2) * real_of_int 10 / real_of_int k\<rfloor> = v"
      "0 \<le> u" "u < 10" "0 \<le> v" "v < 10"
  shows "\<exists>r. mosaicFaceOval_batch centreAgent ctx cornerFace 10 10 bs = Inr r
     \<and> cwidth (canvas r) = 10 \<and> cheight (canvas r) = 10
     \<and> bitmap (canvas r) (2, 3) = pixelAt (gradient 10 10) (u, v)"
proof -
  let ?A = "centreAgent :: nat agent"
  let ?src = "canvas ctx"
  let ?pts = "[(3 / 5, 3 / 5), (48 / 5, 3 / 5), (3 / 5, 48 / 5)] :: point list"
  have h: "(0 :: real) < 10" "\<lceil>10 :: real\<rceil> \<le> 2147483647"
    "cwidth ?src \<noteq> 0" "cheight ?src \<noteq> 0"
    using d by simp_all
  have c: "\<lceil>10 :: real\<rceil> = 10" by simp
  obtain t1 tmp2 m where s:
    "drawImage ?A (getContext (createCanvas 10 10)) ?src 0 0 10 10 0 0 (real_of_int 10) (real_of_int 10) = Inr t1"
    "cwidth tmp2 = k" "cheight tmp2 = k"
    "\<forall>p. pixelAt tmp2 p =
           (if 0 \<le> fst p \<and> fst p < cwidth tmp2 \<and> 0 \<le> snd p \<and> snd p < cheight tmp2
            then pixelAt (canvas t1)
                   (\<lfloor>(real_of_int (fst p) + 1 / 2) * real_of_int 10 / real_of_int (cwidth tmp2)\<rfloor>,
                    \<lfloor>(real_of_int (snd p) + 1 / 2) * real_of_int 10 / real_of_int (cheight tmp2)\<rfloor>)
            else None)"
    "buildMosaicPatch ?A ?src 0 0 10 10 bs = Inr m"
    "cwidth m = 10" "cheight m = 10"
    "\<forall>p. pixelAt m p =
           (if 0 \<le> fst p \<and> fst p < 10 \<and> 0 \<le> snd p \<and> snd p < 10
            then pixelAt tmp2
                   (\<lfloor>(real_of_int (fst p) + 1 / 2) * real_of_int (cwidth tmp2) / real_of_int 10\<rfloor>,
                    \<lfloor>(real_of_int (snd p) + 1 / 2) * real_of_int (cheight tmp2) / real_of_int 10\<rfloor>)
            else None)"
    using buildMosaicPatch_stages [OF bs h(1) h(2) h(1) h(2) h(3) h(4), of ?A 0 0]
    unfolding c k by (elim exE conjE) (rule that)
  have g: "getContext (createCanvas 10 10 :: nat canvas)
            = (getContext (createCanvas 10 10))\<lparr>imageSmoothingEnabled := True\<rparr>"
    by (simp add: getContext_def)
  have r10: "real_of_int 10 \<noteq> 0" by simp
  obtain t1' where t1':
    "drawImage ?A (getContext (createCanvas 10 10)) ?src 0 0 (real_of_int 10) (real_of_int 10)
        0 0 (real_of_int 10) (real_of_int 10) = Inr t1'"
    "\<forall>p. pixelAt (canvas t1') p =
        (if 0 \<le> fst p \<and> fst p < 10 \<and> 0 \<le> snd p \<and> snd p < 10
         then sourcePixel ?A True ?src 0 0 (real_of_int 10) (real_of_int 10) 0 0
                (real_of_int 10) (real_of_int 10) p
         else None)"
    using drawImage_fresh [OF h(3) h(4) r10 r10, of 10 10 ?A True 0 0]
    unfolding g [symmetric] by auto
  have "t1' = t1" using t1'(1) s(1) by simp
  then have "pixelAt (canvas t1) (u, v) = pixelAt ?src (u, v)"
    using t1'(2) [rule_format, of "(u, v)"] copy_sourcePixel [OF r10 r10, of ?A True ?src "(u, v)"]
      uv(3-6)
    by simp
  then have t1uv: "pixelAt (canvas t1) (u, v) = pixelAt (gradient 10 10) (u, v)"
    using px by simp
  have tmpij: "pixelAt tmp2 (i, j) = pixelAt (gradient 10 10) (u, v)"
    using s(4) [rule_format, of "(i, j)"] s(2,3) ij(3-6) uv(1,2) t1uv by simp
  have m23: "pixelAt m (2, 3) = pixelAt (gradient 10 10) (u, v)"
    using s(8) [rule_format, of "(2, 3)"] s(2,3) ij(1,2) tmpij by simp
  have some: "\<exists>col. pixelAt (gradient 10 10) (u, v) = Some col"
    using uv(3-6) by (simp add: pixelAt_def gradient_def)
  have mne: "cwidth m \<noteq> 0" "cheight m \<noteq> 0" using s(6,7) by auto
  have pne: "?pts \<noteq> []" by simp
  obtain r where r:
    "clipAndDraw ?A ctx ?pts m 0 0 = Inr r"
    "cwidth (canvas r) = cwidth (canvas ctx)" "cheight (canvas r) = cheight (canvas ctx)"
    "\<forall>p. bitmap (canvas r) p =
          (if 0 \<le> fst p \<and> fst p < cwidth (canvas ctx) \<and> 0 \<le> snd p
              \<and> snd p < cheight (canvas ctx)
              \<and> clipRegion ctx p \<and> covers ?A (contourPath ?pts) p
              \<and> 0 \<le> real_of_int (fst p) + 1 / 2 \<and> real_of_int (fst p) + 1 / 2 < 0 + real_of_int (cwidth m)
              \<and> 0 \<le> real_of_int (snd p) + 1 / 2 \<and> real_of_int (snd p) + 1 / 2 < 0 + real_of_int (cheight m)
           then (case pixelAt m (\<lfloor>real_of_int (fst p) + 1 / 2 - 0\<rfloor>, \<lfloor>real_of_int (snd p) + 1 / 2 - 0\<rfloor>) of
                   None \<Rightarrow> bitmap (canvas ctx) p | Some c \<Rightarrow> Some c)
           else bitmap (canvas ctx) p)"
    using clipAndDraw_result [OF mne pne, of ?A ctx 0 0] by blast
  have cov: "covers ?A (contourPath ?pts) (2, 3)"
    using raw_covered_inside by (simp add: centreAgent_def)
  have px23: "bitmap (canvas r) (2, 3) = pixelAt (gradient 10 10) (u, v)"
    using r(4) [rule_format, of "(2, 3)"] cov m23 s(6,7) d cl some
    by auto
  have run: "mosaicFaceOval_batch ?A ctx cornerFace 10 10 bs = Inr r"
    unfolding mosaicFaceOval_batch_def cornerFace_pts Let_def
    using cornerFace_region_batch s(5) r(1)
    by simp
  show ?thesis using run px23 r(2,3) d by simp
qed

lemma foldl_face_step_Inl:
  "foldl (\<lambda>acc face. case acc of Inl e \<Rightarrow> Inl e
                       | Inr ctx \<Rightarrow> mosaicFaceOval_batch A ctx face imgW imgH s) (Inl e) faces
     = Inl e"
  by (induction faces) simp_all

lemma mosaicFaces_same_surface:
  "mosaicFaces A c c faces imgW imgH s =
     (case foldl (\<lambda>acc face. case acc of Inl e \<Rightarrow> Inl e
                       | Inr ctx \<Rightarrow> mosaicFaceOval_batch A ctx face imgW imgH s) (Inr c) faces of
        Inl e \<Rightarrow> Inl e
      | Inr r \<Rightarrow> Inr (r, r))"
proof (induction faces arbitrary: c)
  case Nil
  show ?case by simp
next
  case (Cons face rest)
  show ?case
  proof (cases "mosaicFaceOval_batch A c face imgW imgH s")
    case (Inl e)
    then show ?thesis by (simp add: foldl_face_step_Inl)
  next
    case (Inr c')
    then show ?thesis using Cons.IH [of c'] by simp
  qed
qed

lemma processOneFile_face_loop:
  fixes img :: "'c canvas"
  assumes lm: "landmarker st = Some lm \<or> (landmarker st = None \<and> load = Inr lm)"
    and dec: "decoded f = Some img"
    and w: "0 < cwidth img" "cwidth img \<le> 2147483647"
    and h: "0 < cheight img" "cheight img \<le> 2147483647"
    and det: "lm img = Inr (Some faces)" "faces \<noteq> []"
  shows "\<exists>c. drawImage3 A ((getContext (createCanvas (cwidth img) (cheight img)))
                 \<lparr>imageSmoothingEnabled := True\<rparr>) img 0 0 = Inr c
    \<and> fst (processOneFile A load st f i n) =
        (case foldl (\<lambda>acc face. case acc of Inl e \<Rightarrow> Inl e
                       | Inr ctx \<Rightarrow> mosaicFaceOval_batch A ctx face
                             (real_of_int (cwidth img)) (real_of_int (cheight img))
                             (strengthValue st)) (Inr c) faces of
           Inl e \<Rightarrow> Inl e
         | Inr c2 \<Rightarrow>
             (case canvasToPngBlob (canvas c2) of
                Inl e \<Rightarrow> Inl e
              | Inr blob \<Rightarrow>
                  Inr \<lparr>oname = safeBaseName (fname f) @ js ''_mosaic.png'', oblob = blob\<rparr>))"
proof -
  obtain st1 where st1: "initLandmarker load st = (Inr lm, st1)"
    "strengthValue st1 = strengthValue st"
    using initLandmarker_ready [OF lm] by blast
  obtain r where r:
    "drawImage3 A ((getContext (createCanvas (cwidth img) (cheight img)))
        \<lparr>imageSmoothingEnabled := True\<rparr>) img 0 0 = Inr r"
    using drawImage3_copy [OF w h, of A True] by blast
  have len: "length faces \<noteq> 0" using det(2) by simp
  have run: "fst (processOneFile A load st f i n) =
        (case mosaicFaces A r r faces (real_of_int (cwidth img)) (real_of_int (cheight img))
                (strengthValue st) of
           Inl e \<Rightarrow> Inl e
         | Inr (c2, p3) \<Rightarrow>
             (case canvasToPngBlob (canvas c2) of
                Inl e \<Rightarrow> Inl e
              | Inr blob \<Rightarrow>
                  Inr \<lparr>oname = safeBaseName (fname f) @ js ''_mosaic.png'', oblob = blob\<rparr>))"
    unfolding processOneFile_def st1(1) resizedContext_def
    using det(1) dec r len st1(2)
    by (simp add: Let_def clearRect_fresh split: sum.splits prod.splits)
  show ?thesis
    apply (rule exI [of _ r])
    unfolding run mosaicFaces_same_surface
    using r by (simp split: sum.splits)
qed

lemma photo_output_pixel:
  assumes bs: "1 \<le> bs"
    and k: "max 1 \<lfloor>real_of_int 10 / bs\<rfloor> = k"
    and ij: "\<lfloor>(real_of_int 2 + 1 / 2) * real_of_int k / real_of_int 10\<rfloor> = i"
      "\<lfloor>(real_of_int 3 + 1 / 2) * real_of_int k / real_of_int 10\<rfloor> = j"
      "0 \<le> i" "i < k" "0 \<le> j" "j < k"
    and uv: "\<lfloor>(real_of_int i + 1 / 2) * real_of_int 10 / real_of_int k\<rfloor> = u"
      "\<lfloor>(real_of_int j + 1 / 2) * real_of_int 10 / real_of_int k\<rfloor> = v"
      "0 \<le> u" "u < 10" "0 \<le> v" "v < 10"
  shows "\<exists>out. fst (processOneFile centreAgent (Inr oneFace)
                    (idlePage\<lparr>strengthValue := bs\<rparr>) photoFile 1 1) = Inr out
     \<and> bitmap (oblob out) (2, 3) = pixelAt (gradient 10 10) (u, v)"
proof -
  let ?A = "centreAgent :: nat agent"
  let ?st = "idlePage\<lparr>strengthValue := bs\<rparr>"
  let ?img = "gradient 10 10"
  have lm: "landmarker ?st = Some oneFace
      \<or> (landmarker ?st = None \<and> (Inr oneFace :: error + nat landmarker) = Inr oneFace)"
    by (simp add: idlePage_def)
  have dec: "decoded photoFile = Some ?img" by (simp add: photoFile_def)
  have w: "0 < cwidth ?img" "cwidth ?img \<le> 2147483647"
    and h: "0 < cheight ?img" "cheight ?img \<le> 2147483647"
    by (simp_all add: gradient_def)
  have det: "oneFace ?img = Inr (Some [cornerFace])" "[cornerFace] \<noteq> []"
    by (simp_all add: oneFace_def)
  have dims: "real_of_int (cwidth ?img) = 10" "real_of_int (cheight ?img) = 10"
    "cwidth ?img = 10" "cheight ?img = 10"
    by (simp_all add: gradient_def)
  obtain c where c:
    "drawImage3 ?A ((getContext (createCanvas 10 10))\<lparr>imageSmoothingEnabled := True\<rparr>) ?img 0 0 = Inr c"
    "fst (processOneFile ?A (Inr oneFace) ?st photoFile 1 1) =
        (case foldl (\<lambda>acc face. case acc of Inl e \<Rightarrow> Inl e
                       | Inr ctx \<Rightarrow> mosaicFaceOval_batch ?A ctx face (real_of_int 10) (real_of_int 10)
                             (strengthValue ?st))
                (Inr c) [cornerFace] of
           Inl e \<Rightarrow> Inl e
         | Inr c2 \<Rightarrow>
             (case canvasToPngBlob (canvas c2) of
                Inl e \<Rightarrow> Inl e
              | Inr blob \<Rightarrow>
                  Inr \<lparr>oname = safeBaseName (fname photoFile) @ js ''_mosaic.png'', oblob = blob\<rparr>))"
    using processOneFile_face_loop [OF lm dec w h det, of ?A 1 1] unfolding dims(3,4) by blast
  obtain c' where c':
    "drawImage3 ?A ((getContext (createCanvas (cwidth ?img) (cheight ?img)))
         \<lparr>imageSmoothingEnabled := True\<rparr>) ?img 0 0 = Inr c'"
    "cwidth (canvas c') = cwidth ?img" "cheight (canvas c') = cheight ?img"
    "\<forall>p. pixelAt (canvas c') p = pixelAt ?img p"
    using drawImage3_copy [OF w h, of ?A True] by blast
  have same: "c' = c" using c(1) c'(1) unfolding dims by simp
  have cl: "clipRegion c (2, 3)"
    using c(1) drawImage_keeps [of ?A "(getContext (createCanvas 10 10))\<lparr>imageSmoothingEnabled := True\<rparr>"]
    by (auto simp: drawImage3_def drawImage5_def getContext_def)
  have cd: "cwidth (canvas c) = 10" "cheight (canvas c) = 10"
    "\<forall>q. pixelAt (canvas c) q = pixelAt ?img q"
    using c'(2,3,4) same dims by simp_all
  obtain r where r:
    "mosaicFaceOval_batch ?A c cornerFace 10 10 bs = Inr r"
    "cwidth (canvas r) = 10" "cheight (canvas r) = 10"
    "bitmap (canvas r) (2, 3) = pixelAt ?img (u, v)"
    using batch_cornerFace_inside [OF cd(1) cd(2) cl cd(3) bs k ij uv] by blast
  have blob: "canvasToPngBlob (canvas r) = Inr (canvas r)"
    using r(2,3) by (simp add: canvasToPngBlob_def)
  show ?thesis
    unfolding c(2) using r(1,4) blob by simp
qed

lemma photo_output_16:
  "\<exists>out. fst (processOneFile centreAgent (Inr oneFace) (idlePage\<lparr>strengthValue := 16\<rparr>) photoFile 1 1) = Inr out
     \<and> bitmap (oblob out) (2, 3) = Some 505"
  using photo_output_pixel [of 16 1 0 0 5 5]
  by (simp add: pixelAt_def gradient_def)

lemma photo_output_2:
  "\<exists>out. fst (processOneFile centreAgent (Inr oneFace) (idlePage\<lparr>strengthValue := 2\<rparr>) photoFile 1 1) = Inr out
     \<and> bitmap (oblob out) (2, 3) = Some 303"
  using photo_output_pixel [of 2 5 1 1 3 3]
  by (simp add: pixelAt_def gradient_def)

text \<open>
  C5. The block-size policy. The derived block size \<open>max(12, min(32, w / 12))\<close> is
  \<open>clamp(w / 12, 12, 32)\<close>. The single-image compositor renders its patch with that
  value for \<open>w\<close> the width of the bounding box of the expanded contour, and the result
  of \<open>processFile\<close> does not depend on the slider value. The batch compositor renders
  its patch with the block size it is given. \<open>processOneFile\<close> draws the decoded image on
  a fresh canvas of the image's size and, starting from that surface, runs the batch
  compositor once for every detected face, in order, each time with the slider value of
  the page as the block size; the output holds the surface after the last face. The
  slider value reaches the rendered pixels: for the 10 by 10 gradient image with the
  face \<open>cornerFace\<close>, pixel \<open>(2, 3)\<close> of the output (colour \<open>302\<close> in the image) has
  colour \<open>505\<close> when the slider is at 16 and colour \<open>303\<close> when it is at 2.
\<close>

theorem block_size_policy:
  "effectiveBlock w = clamp (w / 12) 12 32
   \<and> (3 \<le> length (contourPts ls imgW imgH) \<longrightarrow>
        mosaicFaceOval_single A ctx ls imgW imgH
          = compose A ctx (expandPts (contourPts ls imgW imgH)) (8 / 100)
              (clamp (boxWidth (expandPts (contourPts ls imgW imgH)) / 12) 12 32) imgW imgH)
   \<and> processFile A load (page\<lparr>strengthValue := s\<rparr>) f
        = (processFile A load page f)\<lparr>strengthValue := s\<rparr>
   \<and> (3 \<le> length (contourPts ls imgW imgH) \<longrightarrow>
        mosaicFaceOval_batch A ctx ls imgW imgH bs
          = compose A ctx (contourPts ls imgW imgH) (10 / 100) bs imgW imgH)
   \<and> ((landmarker st = Some lm \<or> (landmarker st = None \<and> load = Inr lm))
        \<and> decoded f = Some img
        \<and> 0 < cwidth img \<and> cwidth img \<le> 2147483647
        \<and> 0 < cheight img \<and> cheight img \<le> 2147483647
        \<and> lm img = Inr (Some faces) \<and> faces \<noteq> [] \<longrightarrow>
        (\<exists>c. drawImage3 A ((getContext (createCanvas (cwidth img) (cheight img)))
                   \<lparr>imageSmoothingEnabled := True\<rparr>) img 0 0 = Inr c
           \<and> fst (processOneFile A load st f i n) =
               (case foldl (\<lambda>acc face. case acc of Inl e \<Rightarrow> Inl e
                              | Inr target \<Rightarrow> mosaicFaceOval_batch A target face
                                    (real_of_int (cwidth img)) (real_of_int (cheight img))
                                    (strengthValue st)) (Inr c) faces of
                  Inl e \<Rightarrow> Inl e
                | Inr c2 \<Rightarrow>
                    (case canvasToPngBlob (canvas c2) of
                       Inl e \<Rightarrow> Inl e
                     | Inr blob \<Rightarrow>
                         Inr \<lparr>oname = safeBaseName (fname f) @ js ''_mosaic.png'',
                              oblob = blob\<rparr>))))
   \<and> bitmap (gradient 10 10) (2, 3) = Some 302
   \<and> (\<exists>out. fst (processOneFile centreAgent (Inr oneFace)
                 (idlePage\<lparr>strengthValue := 16\<rparr>) photoFile 1 1) = Inr out
          \<and> bitmap (oblob out) (2, 3) = Some 505)
   \<and> (\<exists>out. fst (processOneFile centreAgent (Inr oneFace)
                 (idlePage\<lparr>strengthValue := 2\<rparr>) photoFile 1 1) = Inr out
          \<and> bitmap (oblob out) (2, 3) = Some 303)"
proof -
  have a: "effectiveBlock w = clamp (w / 12) 12 32"
    by (simp add: effectiveBlock_def clamp_def)
  have b: "3 \<le> length (contourPts ls imgW imgH) \<longrightarrow>
        mosaicFaceOval_single A ctx ls imgW imgH
          = compose A ctx (expandPts (contourPts ls imgW imgH)) (8 / 100)
              (clamp (boxWidth (expandPts (contourPts ls imgW imgH)) / 12) 12 32) imgW imgH"
    using single_compose [of ls imgW imgH A ctx]
    by (simp add: effectiveBlock_def clamp_def)
  have c: "processFile A load (page\<lparr>strengthValue := s\<rparr>) f
        = (processFile A load page f)\<lparr>strengthValue := s\<rparr>"
    by (rule processFile_ignores_slider)
  have d: "3 \<le> length (contourPts ls imgW imgH) \<longrightarrow>
        mosaicFaceOval_batch A ctx ls imgW imgH bs
          = compose A ctx (contourPts ls imgW imgH) (10 / 100) bs imgW imgH"
    using batch_compose [of ls imgW imgH A ctx bs] by simp
  have e: "(landmarker st = Some lm \<or> (landmarker st = None \<and> load = Inr lm))
        \<and> decoded f = Some img
        \<and> 0 < cwidth img \<and> cwidth img \<le> 2147483647
        \<and> 0 < cheight img \<and> cheight img \<le> 2147483647
        \<and> lm img = Inr (Some faces) \<and> faces \<noteq> [] \<longrightarrow>
        (\<exists>c. drawImage3 A ((getContext (createCanvas (cwidth img) (cheight img)))
                   \<lparr>imageSmoothingEnabled := True\<rparr>) img 0 0 = Inr c
           \<and> fst (processOneFile A load st f i n) =
               (case foldl (\<lambda>acc face. case acc of Inl e \<Rightarrow> Inl e
                              | Inr target \<Rightarrow> mosaicFaceOval_batch A target face
                                    (real_of_int (cwidth img)) (real_of_int (cheight img))
                                    (strengthValue st)) (Inr c) faces of
                  Inl e \<Rightarrow> Inl e
                | Inr c2 \<Rightarrow>
                    (case canvasToPngBlob (canvas c2) of
                       Inl e \<Rightarrow> Inl e
                     | Inr blob \<Rightarrow>
                         Inr \<lparr>oname = safeBaseName (fname f) @ js ''_mosaic.png'',
                              oblob = blob\<rparr>)))"
    using processOneFile_face_loop [of st lm load f img faces A i n] by blast
  have g: "bitmap (gradient 10 10) (2, 3) = Some (302 :: nat)"
    by (simp add: gradient_def)
  show ?thesis using a b c d e g photo_output_16 photo_output_2 by blast
qed

theorem block_size_policy_witness:
  "3 \<le> length (contourPts cornerFace 10 10)
   \<and> mosaicFaceOval_single centreAgent (getContext (gradient 10 10)) cornerFace 10 10
       = compose centreAgent (getContext (gradient 10 10))
           (expandPts (contourPts cornerFace 10 10)) (8 / 100) 12 10 10
   \<and> mosaicFaceOval_batch centreAgent (getContext (gradient 10 10)) cornerFace 10 10 16
       = compose centreAgent (getContext (gradient 10 10))
           (contourPts cornerFace 10 10) (10 / 100) 16 10 10
   \<and> (\<exists>c. drawImage3 centreAgent ((getContext (createCanvas 10 10))
                \<lparr>imageSmoothingEnabled := True\<rparr>) (gradient 10 10) 0 0 = Inr c
        \<and> fst (processOneFile centreAgent (Inr oneFace) idlePage photoFile 1 1) =
          (case mosaicFaceOval_batch centreAgent c cornerFace 10 10 16 of
             Inl e \<Rightarrow> Inl e
           | Inr c2 \<Rightarrow>
               (case canvasToPngBlob (canvas c2) of
                  Inl e \<Rightarrow> Inl e
                | Inr blob \<Rightarrow> Inr \<lparr>oname = js ''photo_mosaic.png'', oblob = blob\<rparr>)))"
proof -
  note t = block_size_policy [where ls = cornerFace and imgW = 10 and imgH = 10
      and A = "centreAgent :: nat agent" and ctx = "getContext (gradient 10 10)" and bs = 16
      and st = idlePage and lm = oneFace and load = "Inr oneFace" and f = photoFile
      and img = "gradient 10 10" and faces = "[cornerFace]" and i = 1 and n = 1]
  have name: "safeBaseName (fname photoFile) @ js ''_mosaic.png'' = js ''photo_mosaic.png''"
    by (simp add: photoFile_def safeBaseName_def js_def replaceUnsafe_def unsafeUnits_def
        trim_def isWhite_def)
  have pre: "(landmarker idlePage = Some oneFace
        \<or> (landmarker idlePage = None \<and> (Inr oneFace :: error + nat landmarker) = Inr oneFace))
      \<and> decoded photoFile = Some (gradient 10 10)
      \<and> 0 < cwidth (gradient 10 10) \<and> cwidth (gradient 10 10) \<le> 2147483647
      \<and> 0 < cheight (gradient 10 10) \<and> cheight (gradient 10 10) \<le> 2147483647
      \<and> oneFace (gradient 10 10) = Inr (Some [cornerFace]) \<and> [cornerFace] \<noteq> []"
    by (simp add: idlePage_def photoFile_def gradient_def oneFace_def)
  have dims: "cwidth (gradient 10 10) = 10" "cheight (gradient 10 10) = 10"
    "strengthValue idlePage = 16"
    by (simp_all add: gradient_def idlePage_def)
  obtain c where c:
    "drawImage3 centreAgent ((getContext (createCanvas (cwidth (gradient 10 10))
        (cheight (gradient 10 10))))\<lparr>imageSmoothingEnabled := True\<rparr>) (gradient 10 10) 0 0 = Inr c"
    "fst (processOneFile centreAgent (Inr oneFace) idlePage photoFile 1 1) =
       (case foldl (\<lambda>acc face. case acc of Inl e \<Rightarrow> Inl e
                      | Inr target \<Rightarrow> mosaicFaceOval_batch centreAgent target face
                            (real_of_int (cwidth (gradient 10 10)))
                            (real_of_int (cheight (gradient 10 10)))
                            (strengthValue idlePage)) (Inr c) [cornerFace] of
          Inl e \<Rightarrow> Inl e
        | Inr c2 \<Rightarrow>
            (case canvasToPngBlob (canvas c2) of
               Inl e \<Rightarrow> Inl e
             | Inr blob \<Rightarrow>
                 Inr \<lparr>oname = safeBaseName (fname photoFile) @ js ''_mosaic.png'',
                      oblob = blob\<rparr>))"
    using t pre by blast
  have run: "drawImage3 centreAgent ((getContext (createCanvas 10 10))
                \<lparr>imageSmoothingEnabled := True\<rparr>) (gradient 10 10) 0 0 = Inr c
        \<and> fst (processOneFile centreAgent (Inr oneFace) idlePage photoFile 1 1) =
          (case mosaicFaceOval_batch centreAgent c cornerFace 10 10 16 of
             Inl e \<Rightarrow> Inl e
           | Inr c2 \<Rightarrow>
               (case canvasToPngBlob (canvas c2) of
                  Inl e \<Rightarrow> Inl e
                | Inr blob \<Rightarrow> Inr \<lparr>oname = js ''photo_mosaic.png'', oblob = blob\<rparr>))"
    using c unfolding dims name by simp
  have b1: "mosaicFaceOval_single centreAgent (getContext (gradient 10 10)) cornerFace 10 10
       = compose centreAgent (getContext (gradient 10 10))
           (expandPts (contourPts cornerFace 10 10)) (8 / 100) 12 10 10"
    using t cornerFace_three unfolding cornerFace_block by blast
  have b2: "mosaicFaceOval_batch centreAgent (getContext (gradient 10 10)) cornerFace 10 10 16
       = compose centreAgent (getContext (gradient 10 10))
           (contourPts cornerFace 10 10) (10 / 100) 16 10 10"
    using t cornerFace_three by blast
  show ?thesis using cornerFace_three b1 b2 run by blast
qed

end
